theory Spec2Isabelle
  imports Main
begin

section \<open>Data model\<close>

text \<open>
  The structure compiler of SherpaJS (\<^verbatim>\<open>src/compiler/structure/index.ts\<close>) and its module
  resolver (\<^verbatim>\<open>src/compiler/structure/config-module/index.ts\<close>).
\<close>

text \<open>
  Modelled from the spec: the enumeration \<^verbatim>\<open>Level\<close> of the logger is not in the source.
  \<^verbatim>\<open>index.ts\<close> uses \<^verbatim>\<open>Level.WARN\<close> and \<^verbatim>\<open>Level.ERROR\<close>; the specification (3) lists INFO,
  WARN and ERROR.
\<close>

datatype level = INFO | WARN | ERROR

text \<open>
  A diagnostic, with the fields of the object literals of \<^verbatim>\<open>index.ts\<close>. The field
  \<^verbatim>\<open>file: { filepath }\<close> is kept as the path it wraps.
\<close>

record message =
  level :: level
  text_of :: string
  content :: "string option"
  file_of :: string

text \<open>
  The module resolver builds its diagnostics without a level and returns them in a
  field called \<^verbatim>\<open>errors\<close>.
\<close>

record resolver_error =
  re_text :: string
  re_content :: string
  re_file :: string

record segment =
  name :: string
  isDynamic :: bool

text \<open>
  A context is an opaque value of the application; the compiler only threads it through.
  \<^verbatim>\<open>CreateModuleInterface\<close> is the fixed interface of the root level.
\<close>

datatype "context" = Context string

datatype module_interface = CreateModuleInterface | ModuleInterface string

record moduleConfig =
  mc_name :: string
  mc_interface :: module_interface

record moduleConfigFile =
  mf_entry :: string
  mf_filepath :: string
  mf_context :: "context"
  mf_contextFilepath :: string
  mf_instance :: moduleConfig

record moduleStructure =
  ms_filepath :: string
  ms_instance :: moduleConfig
  ms_hasContextSchema :: bool

record serverConfigFile =
  sc_filepath :: string
  sc_context :: "context"

text \<open>
  Modelled from the spec: the types \<^verbatim>\<open>Endpoint\<close> and \<^verbatim>\<open>EndpointTree\<close> of \<^verbatim>\<open>models.js\<close> are
  not in the source. Specification 3: an endpoint is a terminal leaf with the file paths
  of its handler and view, its methods, its segment chain and the module (with the
  context) in effect; an endpoint tree is a mapping from keys to endpoints or further
  trees. The tree is a JavaScript object and its property order matters
  (\<^verbatim>\<open>Object.keys\<close>), so an object is a list of key/value pairs in insertion order with
  distinct keys. The keys the compiler writes are \<^verbatim>\<open>"."\<close> and \<^verbatim>\<open>"/name"\<close>, never
  integer-like, so insertion order is the order of \<^verbatim>\<open>Object.keys\<close>.
\<close>

record endpoint =
  ep_filepath :: string
  ep_viewFilepath :: "string option"
  ep_methods :: "string list"
  ep_module :: moduleConfigFile
  ep_segments :: "segment list"

datatype endpointNode = Endpoint endpoint | Tree "(string \<times> endpointNode) list"

type_synonym endpointTree = "(string \<times> endpointNode) list"

text \<open>
  The directory structure tree of the file-system walker:
  \<^verbatim>\<open>{ files: [{filepath: {absolute}}], directories: { [name]: DirectoryStructureTree } }\<close>.
  The directories are listed in the order of \<^verbatim>\<open>Object.keys(dirTree.directories)\<close>.
\<close>

datatype directoryStructureTree =
  Dir (files: "string list") (directories: "(string \<times> directoryStructureTree) list")

text \<open>
  The result of the compiling functions, \<^verbatim>\<open>{ logs:Message[], endpoints?:EndpointTree }\<close>, and
  the result of \<^verbatim>\<open>getStructure\<close>,
  \<^verbatim>\<open>{ logs, endpoints?: { tree, list }, server? }\<close>.
\<close>

record components =
  logs_of :: "message list"
  endpoints_of :: "endpointTree option"

record endpointStructure =
  es_tree :: endpointTree
  es_list :: "endpointNode list"

record structure_result =
  st_logs :: "message list"
  st_endpoints :: "endpointStructure option"
  st_server :: "serverConfigFile option"

text \<open>
  What the module tooling hands back: the default export of a file (read as a module
  configuration by the resolver and as a module interface with its context by the
  classifier), and the exported loader, of which only \<^verbatim>\<open>module.filepath\<close> is used.
\<close>

record defaultExport =
  de_context :: "context"
  de_config :: moduleConfig

record exportedLoader =
  loaderFilepath :: string

subsection \<open>JavaScript objects and strings\<close>

text \<open>\<^verbatim>\<open>obj[k]\<close>: the value of property \<open>k\<close>, \<open>None\<close> for \<^verbatim>\<open>undefined\<close>.\<close>

definition property :: "(string \<times> 'a) list \<Rightarrow> string \<Rightarrow> 'a option" where
  "property obj k = map_of obj k"

text \<open>\<^verbatim>\<open>obj[k] = v\<close>: an existing property keeps its place, a new one is appended.\<close>

primrec assign :: "string \<Rightarrow> 'a \<Rightarrow> (string \<times> 'a) list \<Rightarrow> (string \<times> 'a) list" where
  "assign k v [] = [(k, v)]"
| "assign k v (p # ps) = (if fst p = k then (k, v) # ps else p # assign k v ps)"

text \<open>\<^verbatim>\<open>{ ...a, ...b }\<close>: the properties of \<open>a\<close>, then each property of \<open>b\<close> assigned in turn.\<close>

definition spread :: "(string \<times> 'a) list \<Rightarrow> (string \<times> 'a) list \<Rightarrow> (string \<times> 'a) list" where
  "spread a b = foldl (\<lambda>acc kv. assign (fst kv) (snd kv) acc) a b"

text \<open>\<^verbatim>\<open>Object.keys(obj)\<close>.\<close>

definition keys :: "(string \<times> 'a) list \<Rightarrow> string list" where
  "keys obj = map fst obj"

text \<open>\<^verbatim>\<open>String.prototype.slice(start, end)\<close> with integer arguments.\<close>

definition slice :: "string \<Rightarrow> int \<Rightarrow> int \<Rightarrow> string" where
  "slice s start stop =
     (let len = int (length s);
          i = (if start < 0 then max (len + start) 0 else min start len);
          j = (if stop < 0 then max (len + stop) 0 else min stop len)
      in take (nat (j - i)) (drop (nat i) s))"

definition startsWith :: "string \<Rightarrow> string \<Rightarrow> bool" where
  "startsWith s p = (take (length p) s = p)"

definition endsWith :: "string \<Rightarrow> string \<Rightarrow> bool" where
  "endsWith s p = (length p \<le> length s \<and> drop (length s - length p) s = p)"

text \<open>\<^verbatim>\<open>Array.prototype.join(sep)\<close> on an array of strings.\<close>

fun join :: "string \<Rightarrow> string list \<Rightarrow> string" where
  "join sep [] = []"
| "join sep [x] = x"
| "join sep (x # y # ys) = x @ sep @ join sep (y # ys)"

text \<open>The double quote character, for the message texts that contain it.\<close>

definition dq :: string where
  "dq = [CHR 0x22]"

text \<open>A string in a condition: the empty string and \<^verbatim>\<open>undefined\<close> are falsy.\<close>

definition truthy :: "string option \<Rightarrow> bool" where
  "truthy s = (case s of None \<Rightarrow> False | Some x \<Rightarrow> x \<noteq> [])"

section \<open>Collaborators\<close>

text \<open>
  The file system, the path helpers, the module tooling, the route-file walker and the
  declaration parser are outside the compiler; so are the constants of \<^verbatim>\<open>models.js\<close>.
  They are parameters of the model. \<open>Tooling_getDefaultExport\<close> may throw (\<open>Inl\<close> of
  the error's message) or find no default export (\<open>Inr None\<close>).
\<close>

record collaborators =
  FILENAME_CONFIG_MODULE :: string
  FILENAME_CONFIG_SERVER :: string
  SUPPORTED_FILE_EXTENSIONS :: "string list"
  CONTEXT_SCHEMA_TYPE_NAME :: string
  ENDPOINT_VIEW :: "string list"
  ENDPOINT_FUNCTIONS :: "string list"
  Files_getFilepathVariableExtension :: "string \<Rightarrow> string \<Rightarrow> string list \<Rightarrow> string option"
  Files_getExtension :: "string \<Rightarrow> string"
  Path_getDirectory :: "string \<Rightarrow> string"
  Path_getName :: "string \<Rightarrow> string"
  Path_resolveExtension :: "string \<Rightarrow> string \<Rightarrow> string list \<Rightarrow> string option"
  Path_resolve :: "string \<Rightarrow> string \<Rightarrow> string"
  Tooling_getDefaultExport :: "string \<Rightarrow> string + defaultExport option"
  Tooling_getExportedVariableNames :: "string \<Rightarrow> string list"
  Tooling_hasExportedLoader :: "string \<Rightarrow> bool"
  Tooling_getExportedLoader ::
    "string \<Rightarrow> string \<Rightarrow> string \<Rightarrow> message list \<times> exportedLoader option"
  Tooling_typeValidation :: "string \<Rightarrow> string \<Rightarrow> message list"
  getRouteFiles :: "string \<Rightarrow> message list \<times> directoryStructureTree option"
  getEndpointFileByDeclaration ::
    "moduleConfigFile \<Rightarrow> string option \<Rightarrow> string option \<Rightarrow> segment list \<Rightarrow> components"

section \<open>Segment parser\<close>

definition getSegment :: "string \<Rightarrow> segment" where
  "getSegment id' =
     (let isDynamic = startsWith id' ''['' \<and> endsWith id' '']'';
          name = (if isDynamic then slice id' 1 (-1) else id')
      in \<lparr>name = name, isDynamic = isDynamic\<rparr>)"

text \<open>The tree key of a child directory: \<^verbatim>\<open>`/${segmentName}`\<close>.\<close>

definition segmentKey :: "string \<Rightarrow> string" where
  "segmentKey segmentName = ''/'' @ segmentName"

section \<open>Module resolver\<close>

text \<open>The error that \<^verbatim>\<open>getFilepath\<close> builds when no module configuration file is found.\<close>

definition moduleConfigMissing :: "collaborators \<Rightarrow> string \<Rightarrow> resolver_error" where
  "moduleConfigMissing w entry =
     \<lparr>re_text = ''Module config file could not be found.'',
      re_content = ''Must have module config, '' @ dq @ FILENAME_CONFIG_MODULE w @ dq
        @ '' of type '' @ dq @ join (dq @ '', '' @ dq) (SUPPORTED_FILE_EXTENSIONS w)
        @ dq @ ''.'',
      re_file = entry\<rparr>"

definition getFilepath :: "collaborators \<Rightarrow> string \<Rightarrow> resolver_error list \<times> string option" where
  "getFilepath w entry =
     (let filepath = Files_getFilepathVariableExtension w entry
                       (FILENAME_CONFIG_MODULE w) (SUPPORTED_FILE_EXTENSIONS w)
      in if truthy filepath then ([], filepath)
         else ([moduleConfigMissing w entry], None))"

definition getInstance :: "collaborators \<Rightarrow> string \<Rightarrow> resolver_error list \<times> moduleConfig option" where
  "getInstance w filepath =
     (case Tooling_getDefaultExport w filepath of
        Inr exported \<Rightarrow> ([], map_option de_config exported)
      | Inl e \<Rightarrow>
          ([\<lparr>re_text = ''Module config file could not be processed.'',
             re_content = ''Ensure module config has default export.'',
             re_file = filepath\<rparr>], None))"

definition hasContextSchema :: "collaborators \<Rightarrow> string \<Rightarrow> bool" where
  "hasContextSchema w filepath =
     (let exportedVariables = Tooling_getExportedVariableNames w filepath;
          exportedSchema = (CONTEXT_SCHEMA_TYPE_NAME w \<in> set exportedVariables);
          isTypescript = (Files_getExtension w filepath = ''TS'')
      in exportedSchema \<and> isTypescript)"

definition getModuleStructure ::
    "collaborators \<Rightarrow> string \<Rightarrow> resolver_error list \<times> moduleStructure option" where
  "getModuleStructure w entry =
     (case getFilepath w entry of
        (errorsFilepath, None) \<Rightarrow> (errorsFilepath, None)
      | (errorsFilepath, Some filepath) \<Rightarrow>
          (case getInstance w filepath of
             (errorsInstance, None) \<Rightarrow> (errorsInstance, None)
           | (errorsInstance, Some instance) \<Rightarrow>
               ([], Some \<lparr>ms_filepath = filepath, ms_instance = instance,
                          ms_hasContextSchema = hasContextSchema w filepath\<rparr>)))"

text \<open>
  Modelled from the spec: the level of a resolver error. \<^verbatim>\<open>getModuleConfig\<close> is not in the
  source, and the errors of the resolver that is carry no level; the specification
  (4.2, 7) gives a missing or unloadable module configuration the level ERROR.
\<close>

definition asError :: "resolver_error \<Rightarrow> message" where
  "asError e = \<lparr>level = ERROR, text_of = re_text e, content = Some (re_content e),
                 file_of = re_file e\<rparr>"

text \<open>
  Modelled from the spec: \<^verbatim>\<open>getModuleConfig\<close>, which \<^verbatim>\<open>index.ts\<close> imports from the resolver
  and calls with the parent context and its file path, is not in the source, whose
  resolver exports \<^verbatim>\<open>getModuleStructure\<close>. The specification (4.2): the resolver yields the
  diagnostics and, on success, the module file of this level; the context is threaded,
  not merged. So the model runs the resolver of the source, passes its errors on as
  diagnostics and fills the module file with the parent's context.
\<close>

definition getModuleConfig ::
    "collaborators \<Rightarrow> string \<Rightarrow> context \<Rightarrow> string \<Rightarrow> message list \<times> moduleConfigFile option" where
  "getModuleConfig w entry context contextFilepath =
     (case getModuleStructure w entry of
        (errors, None) \<Rightarrow> (map asError errors, None)
      | (errors, Some m) \<Rightarrow>
          (map asError errors,
           Some \<lparr>mf_entry = entry, mf_filepath = ms_filepath m, mf_context = context,
                 mf_contextFilepath = contextFilepath, mf_instance = ms_instance m\<rparr>))"

text \<open>
  Modelled from the spec: the diagnostic of a server configuration file that is not
  found. \<^verbatim>\<open>getServerConfig\<close> is not in the source; the specification (7) names the class
  MissingConfig, of level ERROR, at the directory.
\<close>

definition serverConfigMissing :: "string \<Rightarrow> message" where
  "serverConfigMissing entry =
     \<lparr>level = ERROR, text_of = ''Server config file could not be found.'', content = None,
      file_of = entry\<rparr>"

text \<open>
  Modelled from the spec: the diagnostic of a server configuration whose default export
  cannot be loaded; the specification (7) names the class LoadFailure, of level ERROR.
\<close>

definition serverConfigLoadFailure :: "string \<Rightarrow> message" where
  "serverConfigLoadFailure filepath =
     \<lparr>level = ERROR, text_of = ''Server config file could not be processed.'', content = None,
      file_of = filepath\<rparr>"

text \<open>
  Modelled from the spec: \<^verbatim>\<open>getServerConfig\<close> is not in the source. The specification
  (4.4): a separate, simpler file lookup yielding the context, a hard prerequisite of
  the compilation.
\<close>

definition getServerConfig ::
    "collaborators \<Rightarrow> string \<Rightarrow> message list \<times> serverConfigFile option" where
  "getServerConfig w entry =
     (case Files_getFilepathVariableExtension w entry
             (FILENAME_CONFIG_SERVER w) (SUPPORTED_FILE_EXTENSIONS w) of
        None \<Rightarrow> ([serverConfigMissing entry], None)
      | Some filepath \<Rightarrow>
          (case Tooling_getDefaultExport w filepath of
             Inr (Some exported) \<Rightarrow>
               ([], Some \<lparr>sc_filepath = filepath, sc_context = de_context exported\<rparr>)
           | _ \<Rightarrow> ([serverConfigLoadFailure filepath], None)))"

text \<open>
  Modelled from the spec: \<^verbatim>\<open>Logger.hasError\<close> is not in the source. The specification
  (4.3 f): the sequence holds any ERROR-level diagnostic.
\<close>

definition hasError :: "message list \<Rightarrow> bool" where
  "hasError ms = list_ex (\<lambda>m. level m = ERROR) ms"

section \<open>Structure compiler\<close>

definition getModule ::
    "collaborators \<Rightarrow> string \<Rightarrow> context \<Rightarrow> string \<Rightarrow> bool \<Rightarrow> message list \<times> moduleConfigFile option" where
  "getModule w entry context contextFilepath isRoot =
     (if isRoot
      then ([], Some \<lparr>mf_entry = entry, mf_filepath = entry, mf_context = context,
                       mf_contextFilepath = contextFilepath,
                       mf_instance = \<lparr>mc_name = ''.'', mc_interface = CreateModuleInterface\<rparr>\<rparr>)
      else getModuleConfig w entry context contextFilepath)"

definition getViewFilepath :: "collaborators \<Rightarrow> string \<Rightarrow> string option" where
  "getViewFilepath w filepath =
     (let directory = Path_getDirectory w filepath;
          filename = Path_getName w filepath
      in Path_resolveExtension w directory filename (ENDPOINT_VIEW w))"

definition getFunctionsFilepath :: "collaborators \<Rightarrow> string \<Rightarrow> string option" where
  "getFunctionsFilepath w filepath =
     (let directory = Path_getDirectory w filepath;
          filename = Path_getName w filepath
      in Path_resolveExtension w directory filename (ENDPOINT_FUNCTIONS w))"

text \<open>The diagnostics that \<^verbatim>\<open>index.ts\<close> builds.\<close>

definition viewsNotSupported :: "string \<Rightarrow> message" where
  "viewsNotSupported viewFilepath =
     \<lparr>level = WARN, text_of = ''Views are not supported by Module Endpoints.'',
      content = Some ''View will be ignored.'', file_of = viewFilepath\<rparr>"

definition loaderFailedToParse :: "string \<Rightarrow> string \<Rightarrow> message" where
  "loaderFailedToParse e functionsFilepath =
     \<lparr>level = ERROR, text_of = ''Module Loader failed to parse.'', content = Some e,
      file_of = functionsFilepath\<rparr>"

text \<open>
  \<^verbatim>\<open>segments.join(".")\<close> joins the string form of each segment, and the string form of an
  object is \<^verbatim>\<open>[object Object]\<close>.
\<close>

definition overlappingSegment :: "segment list \<Rightarrow> string \<Rightarrow> message" where
  "overlappingSegment segments file0 =
     \<lparr>level = WARN,
      text_of = ''Overlapping endpoint segment: '' @ dq
        @ join ''.'' (map (\<lambda>_. ''[object Object]'') segments) @ dq @ ''.'',
      content = None, file_of = file0\<rparr>"

text \<open>
  The four compiling functions call each other, and a delegated module may name a
  directory whose route file delegates again, without end. The first argument bounds the
  number of nested \<^verbatim>\<open>getComponents\<close> calls; \<open>None\<close> is a call that returns no value (the
  bound is reached, or a \<^verbatim>\<open>TypeError\<close> is thrown at \<^verbatim>\<open>moduleLoader.context\<close> of a missing
  default export or at \<^verbatim>\<open>dirTree.files[0].filepath\<close> of an empty file list).
  \<open>getEndpoints_loop\<close> is the \<^verbatim>\<open>for\<close> loop of \<^verbatim>\<open>getEndpoints\<close> over the directories that are
  left, with the local variables \<^verbatim>\<open>endpoints\<close> and \<^verbatim>\<open>logs\<close>.
\<close>

function (sequential) getComponents ::
    "nat \<Rightarrow> collaborators \<Rightarrow> string \<Rightarrow> context \<Rightarrow> string \<Rightarrow> segment list \<Rightarrow> bool
      \<Rightarrow> components option"
  and getEndpoints ::
    "nat \<Rightarrow> collaborators \<Rightarrow> moduleConfigFile \<Rightarrow> directoryStructureTree \<Rightarrow> segment list
      \<Rightarrow> components option"
  and getEndpoints_loop ::
    "nat \<Rightarrow> collaborators \<Rightarrow> moduleConfigFile \<Rightarrow> directoryStructureTree \<Rightarrow> segment list
      \<Rightarrow> endpointTree \<Rightarrow> message list \<Rightarrow> components option"
  and getEndpointFile ::
    "nat \<Rightarrow> collaborators \<Rightarrow> moduleConfigFile \<Rightarrow> string \<Rightarrow> segment list \<Rightarrow> components option"
  and getEndpointFileByModule ::
    "nat \<Rightarrow> collaborators \<Rightarrow> string \<Rightarrow> string option \<Rightarrow> segment list \<Rightarrow> components option"
where
  "getComponents 0 w entry context contextFilepath segments isRoot = None"
| "getComponents (Suc n) w entry context contextFilepath segments isRoot =
     (case getModule w entry context contextFilepath isRoot of
        (logsModule, None) \<Rightarrow> Some \<lparr>logs_of = logsModule, endpoints_of = None\<rparr>
      | (logsModule, Some module) \<Rightarrow>
          (case getRouteFiles w (mf_entry module) of
             (logsFiles, None) \<Rightarrow> Some \<lparr>logs_of = logsModule @ logsFiles, endpoints_of = None\<rparr>
           | (logsFiles, Some filesTree) \<Rightarrow>
               (case getEndpoints n w module filesTree segments of
                  None \<Rightarrow> None
                | Some structure \<Rightarrow>
                    Some (structure\<lparr>logs_of := (logsModule @ logsFiles) @ logs_of structure\<rparr>))))"
| "getEndpoints n w module dirTree segments =
     (case files dirTree of
        [] \<Rightarrow> getEndpoints_loop n w module dirTree segments [] []
      | file0 # _ \<Rightarrow>
          (case getEndpointFile n w module file0 segments of
             None \<Rightarrow> None
           | Some r \<Rightarrow>
               getEndpoints_loop n w module dirTree segments
                 (case endpoints_of r of None \<Rightarrow> [] | Some e \<Rightarrow> spread [] e)
                 (logs_of r)))"
| "getEndpoints_loop n w module (Dir fs []) segments endpoints logs =
     Some \<lparr>logs_of = logs, endpoints_of = Some endpoints\<rparr>"
| "getEndpoints_loop n w module (Dir fs ((segmentName, sub) # rest)) segments endpoints logs =
     (case (if property endpoints (segmentKey segmentName) \<noteq> None
            then (case fs of
                    [] \<Rightarrow> None
                  | file0 # _ \<Rightarrow> Some (logs @ [overlappingSegment segments file0]))
            else Some logs) of
        None \<Rightarrow> None
      | Some logs1 \<Rightarrow>
          (case getEndpoints n w module sub (segments @ [getSegment segmentName]) of
             None \<Rightarrow> None
           | Some r \<Rightarrow>
               getEndpoints_loop n w module (Dir fs rest) segments
                 (case endpoints_of r of
                    None \<Rightarrow> endpoints
                  | Some e \<Rightarrow> assign (segmentKey segmentName) (Tree e) endpoints)
                 (logs1 @ logs_of r)))"
| "getEndpointFile n w module filepath segments =
     (let functionsFilepath = getFunctionsFilepath w filepath;
          viewFilepath = getViewFilepath w filepath
      in case functionsFilepath of
           None \<Rightarrow>
             Some (getEndpointFileByDeclaration w module functionsFilepath viewFilepath segments)
         | Some functions \<Rightarrow>
             if functions \<noteq> [] \<and> Tooling_hasExportedLoader w functions
             then getEndpointFileByModule n w functions viewFilepath segments
             else Some (getEndpointFileByDeclaration w module functionsFilepath viewFilepath
                          segments))"
| "getEndpointFileByModule n w functionsFilepath viewFilepath segments =
     (case viewFilepath of
        Some view \<Rightarrow> Some \<lparr>logs_of = [viewsNotSupported view], endpoints_of = None\<rparr>
      | None \<Rightarrow>
          (case Tooling_getExportedLoader w functionsFilepath ''Module Loader'' ''.load'' of
             (logsModule, None) \<Rightarrow> Some \<lparr>logs_of = logsModule, endpoints_of = None\<rparr>
           | (logsModule, Some module) \<Rightarrow>
               (case Tooling_getDefaultExport w functionsFilepath of
                  Inl e \<Rightarrow>
                    Some \<lparr>logs_of = [loaderFailedToParse e functionsFilepath],
                          endpoints_of = None\<rparr>
                | Inr None \<Rightarrow> None
                | Inr (Some moduleLoader) \<Rightarrow>
                    (let entry = Path_resolve w (loaderFilepath module)
                                   (Path_getDirectory w functionsFilepath)
                     in case getComponents n w entry (de_context moduleLoader)
                               functionsFilepath segments False of
                          None \<Rightarrow> None
                        | Some components \<Rightarrow>
                            (let typeErrors =
                                   Tooling_typeValidation w functionsFilepath ''Module Loader'';
                                 logs = logsModule @ logs_of components @ typeErrors
                             in if hasError logs
                                then Some \<lparr>logs_of = logs, endpoints_of = None\<rparr>
                                else Some (components\<lparr>logs_of := logs\<rparr>))))))"

  by pat_completeness auto

termination
  by (relation "inv_image (less_than <*lex*> less_than)
        (\<lambda>x. case x of
           Inl (Inl (n, r)) \<Rightarrow> (n, 0)
         | Inl (Inr (n, w, m, t, s)) \<Rightarrow> (n, 2 * size t + 4)
         | Inr (Inl (n, w, m, t, s)) \<Rightarrow> (n, 2 * size t + 3)
         | Inr (Inr (Inl (n, r))) \<Rightarrow> (n, 2)
         | Inr (Inr (Inr (n, r))) \<Rightarrow> (n, 1))")
     auto

declare getComponents.simps [simp del] getEndpoints.simps [simp del]
  getEndpoints_loop.simps [simp del] getEndpointFile.simps [simp del]
  getEndpointFileByModule.simps [simp del]


section \<open>The diagnostics of the child directories in the words of the specification\<close>

text \<open>
  Specification 4.4, steps 5 and 7: the child directories are taken in listing order;
  for each of them, one WARN diagnostic if its key is in the route file's own
  contribution, then the diagnostics of its compilation under the segment chain extended
  by its segment. \<open>None\<close> when the compilation of a child does not return.
\<close>

fun childDiagnostics_spec ::
    "nat \<Rightarrow> collaborators \<Rightarrow> moduleConfigFile \<Rightarrow> string \<Rightarrow> segment list \<Rightarrow> endpointTree
      \<Rightarrow> (string \<times> directoryStructureTree) list \<Rightarrow> message list option" where
  "childDiagnostics_spec n w module route segments own [] = Some []"
| "childDiagnostics_spec n w module route segments own ((segmentName, sub) # rest) =
     (case getEndpoints n w module sub (segments @ [getSegment segmentName]) of
        None \<Rightarrow> None
      | Some child \<Rightarrow>
          (case childDiagnostics_spec n w module route segments own rest of
             None \<Rightarrow> None
           | Some later \<Rightarrow>
               Some ((if property own (segmentKey segmentName) \<noteq> None
                      then [overlappingSegment segments route] else [])
                     @ logs_of child @ later)))"

section \<open>Flattener\<close>

text \<open>
  \<^verbatim>\<open>endpointTree["filepath"]\<close> is the handler path of an endpoint and a property like any
  other of a tree. An endpoint whose path is the empty string is not taken for a leaf:
  the walk goes on into the endpoint's own properties as if they were tree keys, and a
  non-empty string among them is walked for ever (a one-character string is its own
  first character) until the call ends in a \<^verbatim>\<open>RangeError\<close>. The model has no list for such
  an endpoint: \<open>None\<close>.
  The values of a tree are walked along its key/value pairs, which is
  \<^verbatim>\<open>endpointTree[segment]\<close> for each key since the keys of an object are distinct.
\<close>

fun flattenEndpoints :: "endpointNode option \<Rightarrow> endpointNode list option" where
  "flattenEndpoints None = Some []"
| "flattenEndpoints (Some (Endpoint e)) =
     (if ep_filepath e \<noteq> [] then Some [Endpoint e] else None)"
| "flattenEndpoints (Some (Tree endpointTree)) =
     (if property endpointTree ''filepath'' \<noteq> None then Some [Tree endpointTree]
      else
        (let endpointList = (case property endpointTree ''.'' of
                               Some dot \<Rightarrow> [dot]
                             | None \<Rightarrow> []);
             segments = filter (\<lambda>kv. fst kv \<noteq> ''.'') endpointTree
         in case those (map (\<lambda>kv. flattenEndpoints (Some (snd kv))) segments) of
              None \<Rightarrow> None
            | Some flat \<Rightarrow> Some (endpointList @ concat flat)))"

section \<open>Root invocation\<close>

definition getStructure :: "nat \<Rightarrow> collaborators \<Rightarrow> string \<Rightarrow> structure_result option" where
  "getStructure n w entry =
     (case getServerConfig w entry of
        (logsServer, None) \<Rightarrow>
          Some \<lparr>st_logs = logsServer, st_endpoints = None, st_server = None\<rparr>
      | (logsServer, Some server) \<Rightarrow>
          (case getComponents n w entry (sc_context server) (sc_filepath server) [] True of
             None \<Rightarrow> None
           | Some r \<Rightarrow>
               (case endpoints_of r of
                  None \<Rightarrow>
                    Some \<lparr>st_logs = logsServer @ logs_of r, st_endpoints = None,
                          st_server = None\<rparr>
                | Some endpoints \<Rightarrow>
                    (case flattenEndpoints (Some (Tree endpoints)) of
                       None \<Rightarrow> None
                     | Some flat \<Rightarrow>
                         Some \<lparr>st_logs = logsServer @ logs_of r,
                               st_endpoints = Some \<lparr>es_tree = endpoints, es_list = flat\<rparr>,
                               st_server = Some server\<rparr>))))"

section \<open>The flattener in the words of the specification\<close>

text \<open>
  Specification 4.5: a node that is a terminal endpoint contributes itself; any other
  node contributes its own \<^verbatim>\<open>"."\<close> entry first (if present), followed by the flattened
  contents of each key other than \<^verbatim>\<open>"."\<close>, in tree key order.
\<close>

fun flatten_spec :: "endpointNode \<Rightarrow> endpointNode list" where
  "flatten_spec (Endpoint e) = [Endpoint e]"
| "flatten_spec (Tree t) =
     (case map_of t ''.'' of Some dot \<Rightarrow> [dot] | None \<Rightarrow> [])
     @ concat (map (\<lambda>kv. flatten_spec (snd kv)) (filter (\<lambda>kv. fst kv \<noteq> ''.'') t))"

text \<open>
  The trees of the data model (specification 3): an endpoint has a concrete handler
  path, and every key of a tree is \<^verbatim>\<open>"."\<close> or begins with \<^verbatim>\<open>"/"\<close>.
\<close>

fun wellFormed :: "endpointNode \<Rightarrow> bool" where
  "wellFormed (Endpoint e) = (ep_filepath e \<noteq> [])"
| "wellFormed (Tree t) =
     list_all (\<lambda>kv. (fst kv = ''.'' \<or> take 1 (fst kv) = ''/'') \<and> wellFormed (snd kv)) t"

section \<open>A project to run the compiler on\<close>

text \<open>
  A small project for the concrete runs: the server configuration and a route file in
  \<^verbatim>\<open>/app\<close> that delegates to the module \<^verbatim>\<open>/app/m1\<close>, which has one declarative endpoint
  in its directory \<^verbatim>\<open>a\<close>; a declarative route file in \<^verbatim>\<open>/app/a\<close>; a delegating route
  file with a view beside it in \<^verbatim>\<open>/app/view\<close>; one that delegates to a directory
  without module configuration in \<^verbatim>\<open>/app/broken\<close>; one whose type validation reports an
  error in \<^verbatim>\<open>/app/typed\<close>; and a module \<^verbatim>\<open>/app/m2\<close> written in JavaScript.
\<close>

definition demoFiles :: "string list" where
  "demoFiles =
     [''/app/index.ts'', ''/app/a/index.ts'', ''/app/m1/a/index.ts'', ''/app/view/index.ts'',
      ''/app/view/index.html'', ''/app/broken/index.ts'', ''/app/typed/index.ts'',
      ''/app/[id]/index.ts'']"

definition demoDirectory :: "string \<Rightarrow> string" where
  "demoDirectory p = rev (drop 1 (dropWhile (\<lambda>c. c \<noteq> CHR ''/'') (rev p)))"

definition demoName :: "string \<Rightarrow> string" where
  "demoName p = takeWhile (\<lambda>c. c \<noteq> CHR ''.'') (rev (takeWhile (\<lambda>c. c \<noteq> CHR ''/'') (rev p)))"

definition demoResolveExtension :: "string \<Rightarrow> string \<Rightarrow> string list \<Rightarrow> string option" where
  "demoResolveExtension directory filename extensions =
     List.find (\<lambda>p. p \<in> set demoFiles)
       (map (\<lambda>e. directory @ ''/'' @ filename @ ''.'' @ e) extensions)"

definition demoResolve :: "string \<Rightarrow> string \<Rightarrow> string" where
  "demoResolve p base = (if take 1 p = ''/'' then p else base @ ''/'' @ p)"

definition demoConfigFile :: "string \<Rightarrow> string \<Rightarrow> string list \<Rightarrow> string option" where
  "demoConfigFile directory filename extensions =
     (if directory = ''/app'' \<and> filename = ''sherpa.server'' then Some ''/app/sherpa.server.ts''
      else if directory = ''/app/m1'' \<and> filename = ''sherpa.module''
        then Some ''/app/m1/sherpa.module.ts''
      else if directory = ''/app/m2'' \<and> filename = ''sherpa.module''
        then Some ''/app/m2/sherpa.module.js''
      else None)"

definition demoExtension :: "string \<Rightarrow> string" where
  "demoExtension p =
     (if endsWith p ''.ts'' then ''TS'' else if endsWith p ''.js'' then ''JS'' else ''HTML'')"

definition demoModule :: "string \<Rightarrow> defaultExport" where
  "demoModule n =
     \<lparr>de_context = Context n, de_config = \<lparr>mc_name = n, mc_interface = ModuleInterface n\<rparr>\<rparr>"

definition demoDefaultExport :: "string \<Rightarrow> string + defaultExport option" where
  "demoDefaultExport p =
     (if p = ''/app/sherpa.server.ts'' then Inr (Some (demoModule ''server''))
      else if p = ''/app/m1/sherpa.module.ts'' then Inr (Some (demoModule ''m1''))
      else if p = ''/app/m2/sherpa.module.js'' then Inr (Some (demoModule ''m2''))
      else if p \<in> set [''/app/index.ts'', ''/app/view/index.ts'', ''/app/typed/index.ts'']
        then Inr (Some (demoModule ''m1''))
      else if p = ''/app/broken/index.ts'' then Inr (Some (demoModule ''none''))
      else Inl ''Cannot find module'')"

definition demoLoader :: "string \<Rightarrow> string \<Rightarrow> string \<Rightarrow> message list \<times> exportedLoader option" where
  "demoLoader p label path =
     (if p = ''/app/index.ts'' then ([], Some \<lparr>loaderFilepath = ''m1''\<rparr>)
      else if p \<in> set [''/app/view/index.ts'', ''/app/typed/index.ts'']
        then ([], Some \<lparr>loaderFilepath = ''/app/m1''\<rparr>)
      else if p = ''/app/broken/index.ts'' then ([], Some \<lparr>loaderFilepath = ''none''\<rparr>)
      else ([], None))"

definition demoTypeError :: message where
  "demoTypeError =
     \<lparr>level = ERROR, text_of = ''Module Loader has a type error.'', content = None,
      file_of = ''/app/typed/index.ts''\<rparr>"

definition demoRouteFiles :: "string \<Rightarrow> message list \<times> directoryStructureTree option" where
  "demoRouteFiles directory =
     (if directory = ''/app''
        then ([], Some (Dir [''/app/index''] [(''a'', Dir [''/app/a/index''] [])]))
      else if directory = ''/app/m1''
        then ([], Some (Dir [] [(''a'', Dir [''/app/m1/a/index''] [])]))
      else ([], None))"

definition demoDeclaration ::
    "moduleConfigFile \<Rightarrow> string option \<Rightarrow> string option \<Rightarrow> segment list \<Rightarrow> components" where
  "demoDeclaration module functionsFilepath viewFilepath segments =
     \<lparr>logs_of = [],
      endpoints_of = Some [(''.'',
        Endpoint \<lparr>ep_filepath = (case functionsFilepath of
                                  Some p \<Rightarrow> p
                                | None \<Rightarrow> (case viewFilepath of Some p \<Rightarrow> p | None \<Rightarrow> [])),
                  ep_viewFilepath = viewFilepath, ep_methods = [''GET''],
                  ep_module = module, ep_segments = segments\<rparr>)]\<rparr>"

definition demo :: collaborators where
  "demo =
     \<lparr>FILENAME_CONFIG_MODULE = ''sherpa.module'',
      FILENAME_CONFIG_SERVER = ''sherpa.server'',
      SUPPORTED_FILE_EXTENSIONS = [''JS'', ''CJS'', ''TS''],
      CONTEXT_SCHEMA_TYPE_NAME = ''ContextSchema'',
      ENDPOINT_VIEW = [''html''],
      ENDPOINT_FUNCTIONS = [''js'', ''cjs'', ''ts''],
      Files_getFilepathVariableExtension = demoConfigFile,
      Files_getExtension = demoExtension,
      Path_getDirectory = demoDirectory,
      Path_getName = demoName,
      Path_resolveExtension = demoResolveExtension,
      Path_resolve = demoResolve,
      Tooling_getDefaultExport = demoDefaultExport,
      Tooling_getExportedVariableNames = (\<lambda>p. [''default'', ''ContextSchema'']),
      Tooling_hasExportedLoader =
        (\<lambda>p. p \<in> set [''/app/index.ts'', ''/app/view/index.ts'', ''/app/broken/index.ts'',
                       ''/app/typed/index.ts'']),
      Tooling_getExportedLoader = demoLoader,
      Tooling_typeValidation = (\<lambda>p label. if p = ''/app/typed/index.ts'' then [demoTypeError] else []),
      getRouteFiles = demoRouteFiles,
      getEndpointFileByDeclaration = demoDeclaration\<rparr>"

text \<open>The module of the root level of \<^verbatim>\<open>/app\<close>, and the module \<^verbatim>\<open>/app/m1\<close> as resolved.\<close>

definition demoRoot :: moduleConfigFile where
  "demoRoot =
     \<lparr>mf_entry = ''/app'', mf_filepath = ''/app'', mf_context = Context ''server'',
      mf_contextFilepath = ''/app/sherpa.server.ts'',
      mf_instance = \<lparr>mc_name = ''.'', mc_interface = CreateModuleInterface\<rparr>\<rparr>"

definition demoM1 :: "string \<Rightarrow> moduleConfigFile" where
  "demoM1 loader =
     \<lparr>mf_entry = ''/app/m1'', mf_filepath = ''/app/m1/sherpa.module.ts'',
      mf_context = Context ''m1'', mf_contextFilepath = loader,
      mf_instance = \<lparr>mc_name = ''m1'', mc_interface = ModuleInterface ''m1''\<rparr>\<rparr>"

text \<open>A declarative endpoint of the root module, as the declaration parser above builds it.\<close>

definition demoEndpoint :: "string \<Rightarrow> segment list \<Rightarrow> endpointNode" where
  "demoEndpoint p segments =
     Endpoint \<lparr>ep_filepath = p, ep_viewFilepath = None, ep_methods = [''GET''],
               ep_module = demoRoot, ep_segments = segments\<rparr>"

section \<open>Objects and the loop over the child directories\<close>

lemma keys_assign: "set (keys (assign k v obj)) = insert k (set (keys obj))"
  by (induction obj) (auto simp: keys_def)

lemma property_assign:
  "property (assign k v obj) k' = (if k' = k then Some v else property obj k')"
  by (induction obj) (auto simp: property_def)

lemma keys_spread: "set (keys (spread a b)) = set (keys a) \<union> set (keys b)"
  unfolding spread_def
  by (induction b arbitrary: a) (auto simp: keys_assign, auto simp: keys_def)

lemma loop_Nil:
  "getEndpoints_loop k w m (Dir fs []) segs eps lgs = Some \<lparr>logs_of = lgs, endpoints_of = Some eps\<rparr>"
  by (simp add: getEndpoints_loop.simps)

lemma loop_Cons:
  "getEndpoints_loop k w m (Dir fs ((d, sub) # rest)) segs eps lgs =
     (if property eps (segmentKey d) \<noteq> None \<and> fs = [] then None
      else case getEndpoints k w m sub (segs @ [getSegment d]) of
             None \<Rightarrow> None
           | Some c \<Rightarrow>
               getEndpoints_loop k w m (Dir fs rest) segs
                 (case endpoints_of c of
                    None \<Rightarrow> eps
                  | Some e \<Rightarrow> assign (segmentKey d) (Tree e) eps)
                 (lgs @ (if property eps (segmentKey d) \<noteq> None
                         then [overlappingSegment segs (hd fs)] else []) @ logs_of c))"
  by (cases fs; cases "property eps (segmentKey d)")
     (simp_all add: getEndpoints_loop.simps split: option.splits)

lemma loop_returns_tree:
  "getEndpoints_loop k w m (Dir fs ds) segs eps lgs = Some r \<Longrightarrow> \<exists>t. endpoints_of r = Some t"
proof (induction ds arbitrary: eps lgs)
  case Nil
  then show ?case by (auto simp: loop_Nil)
next
  case (Cons x ds)
  obtain d sub where x: "x = (d, sub)" by (cases x)
  from Cons.prems show ?case
    unfolding x loop_Cons
    by (auto split: option.splits if_splits dest: Cons.IH)
qed

lemma getEndpoints_returns_tree:
  "getEndpoints k w m t segs = Some r \<Longrightarrow> \<exists>e. endpoints_of r = Some e"
  by (cases t) (auto simp: getEndpoints.simps split: list.splits option.splits dest: loop_returns_tree)

lemma segmentKey_inj: "segmentKey a = segmentKey b \<longleftrightarrow> a = b"
  by (simp add: segmentKey_def)

lemma loop_logs_shift:
  "getEndpoints_loop k w m (Dir fs ds) segs eps lgs =
     map_option (\<lambda>r. r\<lparr>logs_of := lgs @ logs_of r\<rparr>) (getEndpoints_loop k w m (Dir fs ds) segs eps [])"
proof (induction ds arbitrary: eps lgs)
  case Nil
  show ?case by (simp add: loop_Nil)
next
  case (Cons x ds)
  obtain d sub where x: "x = (d, sub)" by (cases x)
  have comb: "getEndpoints_loop k w m (Dir fs ds) segs e (lgs @ X) =
      map_option (\<lambda>r. r\<lparr>logs_of := lgs @ logs_of r\<rparr>) (getEndpoints_loop k w m (Dir fs ds) segs e X)"
    for e X
  proof -
    have "getEndpoints_loop k w m (Dir fs ds) segs e (lgs @ X) =
        map_option (\<lambda>r. r\<lparr>logs_of := (lgs @ X) @ logs_of r\<rparr>)
          (getEndpoints_loop k w m (Dir fs ds) segs e [])"
      by (rule Cons.IH)
    moreover have "getEndpoints_loop k w m (Dir fs ds) segs e X =
        map_option (\<lambda>r. r\<lparr>logs_of := X @ logs_of r\<rparr>)
          (getEndpoints_loop k w m (Dir fs ds) segs e [])"
      by (rule Cons.IH)
    ultimately show ?thesis
      by (cases "getEndpoints_loop k w m (Dir fs ds) segs e []") simp_all
  qed
  show ?case
    unfolding x loop_Cons
    by (simp split: option.splits add: comb)
qed

lemma loop_files_irrelevant:
  "distinct (map fst ds) \<Longrightarrow> \<forall>x \<in> set ds. property eps (segmentKey (fst x)) = None \<Longrightarrow>
   getEndpoints_loop k w m (Dir fs ds) segs eps lgs = getEndpoints_loop k w m (Dir fs' ds) segs eps lgs"
proof (induction ds arbitrary: eps lgs)
  case Nil
  show ?case by (simp add: loop_Nil)
next
  case (Cons x ds)
  obtain d sub where x: "x = (d, sub)" by (cases x)
  have here: "property eps (segmentKey d) = None"
    using Cons.prems(2) by (simp add: x)
  have rest: "\<forall>y \<in> set ds. property (assign (segmentKey d) v eps) (segmentKey (fst y)) = None" for v
    using Cons.prems by (auto simp: x property_assign segmentKey_inj)
  have rest': "\<forall>y \<in> set ds. property eps (segmentKey (fst y)) = None"
    using Cons.prems by simp
  have dist: "distinct (map fst ds)"
    using Cons.prems(1) by simp
  show ?case
    unfolding x loop_Cons
    by (simp add: here split: option.splits)
       (auto intro: Cons.IH [OF dist rest] Cons.IH [OF dist rest'])
qed

lemma loop_append:
  "getEndpoints_loop k w m (Dir fs (xs @ ys)) segs eps lgs =
     (case getEndpoints_loop k w m (Dir fs xs) segs eps lgs of
        None \<Rightarrow> None
      | Some r \<Rightarrow> getEndpoints_loop k w m (Dir fs ys) segs (the (endpoints_of r)) (logs_of r))"
proof (induction xs arbitrary: eps lgs)
  case Nil
  show ?case by (simp add: loop_Nil)
next
  case (Cons x xs)
  obtain d sub where x: "x = (d, sub)" by (cases x)
  show ?case
    unfolding x append_Cons loop_Cons
    by (simp split: option.splits add: Cons.IH)
qed

lemma loop_Cons_Some:
  assumes "getEndpoints_loop k w m (Dir fs ((d, sub) # rest)) segs eps lgs = Some r"
  shows "\<exists>c e. getEndpoints k w m sub (segs @ [getSegment d]) = Some c \<and> endpoints_of c = Some e \<and>
           (property eps (segmentKey d) \<noteq> None \<longrightarrow> fs \<noteq> []) \<and>
           getEndpoints_loop k w m (Dir fs rest) segs (assign (segmentKey d) (Tree e) eps)
             (lgs @ (if property eps (segmentKey d) \<noteq> None
                     then [overlappingSegment segs (hd fs)] else []) @ logs_of c) = Some r"
proof (cases "getEndpoints k w m sub (segs @ [getSegment d])")
  case None
  with assms show ?thesis by (simp add: loop_Cons split: if_splits)
next
  case (Some c)
  then obtain e where e: "endpoints_of c = Some e"
    using getEndpoints_returns_tree by blast
  from assms Some e show ?thesis
    by (cases "property eps (segmentKey d)"; cases "fs = []") (simp_all add: loop_Cons)
qed

lemma loop_other_keys:
  "getEndpoints_loop k w m (Dir fs ds) segs eps lgs = Some r \<Longrightarrow>
   \<forall>x \<in> set ds. segmentKey (fst x) \<noteq> key \<Longrightarrow>
   \<exists>t. endpoints_of r = Some t \<and> property t key = property eps key"
proof (induction ds arbitrary: eps lgs)
  case Nil
  then show ?case by (auto simp: loop_Nil)
next
  case (Cons x ds)
  obtain d sub where x: "x = (d, sub)" by (cases x)
  from Cons.prems(2) have rest: "\<forall>y \<in> set ds. segmentKey (fst y) \<noteq> key"
    and here: "segmentKey d \<noteq> key" by (simp_all add: x)
  from loop_Cons_Some [OF Cons.prems(1) [unfolded x]] obtain c e lgs' where
    step: "getEndpoints_loop k w m (Dir fs ds) segs (assign (segmentKey d) (Tree e) eps) lgs' = Some r"
    by blast
  from Cons.IH [OF step rest] obtain t where
    t: "endpoints_of r = Some t" "property t key = property (assign (segmentKey d) (Tree e) eps) key"
    by blast
  with here show ?case by (simp add: property_assign)
qed

lemma loop_total:
  "fs \<noteq> [] \<Longrightarrow>
   \<forall>x \<in> set ds. getEndpoints k w m (snd x) (segs @ [getSegment (fst x)]) \<noteq> None \<Longrightarrow>
   getEndpoints_loop k w m (Dir fs ds) segs eps lgs \<noteq> None"
proof (induction ds arbitrary: eps lgs)
  case Nil
  show ?case by (simp add: loop_Nil)
next
  case (Cons x ds)
  obtain d sub where x: "x = (d, sub)" by (cases x)
  have rest: "getEndpoints_loop k w m (Dir fs ds) segs e L \<noteq> None" for e L
    using Cons.IH Cons.prems by simp
  from Cons.prems obtain c where c: "getEndpoints k w m sub (segs @ [getSegment d]) = Some c"
    by (auto simp: x)
  show ?case
    unfolding x loop_Cons c using Cons.prems(1) by (simp add: rest)
qed

lemma getEndpoints_Dir_Nil:
  "getEndpoints k w m (Dir [] ds) segs = getEndpoints_loop k w m (Dir [] ds) segs [] []"
  by (simp add: getEndpoints.simps)

lemma getEndpoints_Dir_Cons:
  "getEndpoints k w m (Dir (f # fs) ds) segs =
     (case getEndpointFile k w m f segs of
        None \<Rightarrow> None
      | Some r \<Rightarrow>
          getEndpoints_loop k w m (Dir (f # fs) ds) segs
            (case endpoints_of r of None \<Rightarrow> [] | Some e \<Rightarrow> spread [] e) (logs_of r))"
  by (simp add: getEndpoints.simps)

text \<open>The state of the loop when it reaches a child, and what the child leaves behind.\<close>

lemma loop_child:
  assumes dist: "distinct (map fst (before @ (d, sub) # after))"
    and run: "getEndpoints_loop k w m (Dir fs (before @ (d, sub) # after)) segs eps lgs = Some r"
  shows "\<exists>rb tb c ct t post.
           getEndpoints_loop k w m (Dir fs before) segs eps lgs = Some rb \<and>
           endpoints_of rb = Some tb \<and>
           property tb (segmentKey d) = property eps (segmentKey d) \<and>
           getEndpoints k w m sub (segs @ [getSegment d]) = Some c \<and>
           endpoints_of c = Some ct \<and>
           endpoints_of r = Some t \<and>
           property t (segmentKey d) = Some (Tree ct) \<and>
           logs_of r = logs_of rb
             @ (if property eps (segmentKey d) \<noteq> None
                then [overlappingSegment segs (hd fs)] else [])
             @ logs_of c @ post"
proof -
  from run obtain rb where
    rb: "getEndpoints_loop k w m (Dir fs before) segs eps lgs = Some rb"
    and run2: "getEndpoints_loop k w m (Dir fs ((d, sub) # after)) segs
                 (the (endpoints_of rb)) (logs_of rb) = Some r"
    by (auto simp: loop_append split: option.splits)
  have nb: "\<forall>x \<in> set before. segmentKey (fst x) \<noteq> segmentKey d"
    using dist by (auto simp: segmentKey_inj)
  have na: "\<forall>x \<in> set after. segmentKey (fst x) \<noteq> segmentKey d"
    using dist by (auto simp: segmentKey_inj)
  from loop_other_keys [OF rb nb] obtain tb where
    tb: "endpoints_of rb = Some tb" "property tb (segmentKey d) = property eps (segmentKey d)"
    by blast
  from loop_Cons_Some [OF run2] tb obtain c ct where
    c: "getEndpoints k w m sub (segs @ [getSegment d]) = Some c" "endpoints_of c = Some ct"
    and run3: "getEndpoints_loop k w m (Dir fs after) segs (assign (segmentKey d) (Tree ct) tb)
                 (logs_of rb @ (if property eps (segmentKey d) \<noteq> None
                     then [overlappingSegment segs (hd fs)] else []) @ logs_of c) = Some r"
    by auto
  from loop_other_keys [OF run3 na] obtain t where
    t: "endpoints_of r = Some t" "property t (segmentKey d) = Some (Tree ct)"
    by (auto simp: property_assign)
  from run3 obtain r0 where
    "getEndpoints_loop k w m (Dir fs after) segs (assign (segmentKey d) (Tree ct) tb) [] = Some r0"
    and "r = r0\<lparr>logs_of := (logs_of rb @ (if property eps (segmentKey d) \<noteq> None
                     then [overlappingSegment segs (hd fs)] else []) @ logs_of c) @ logs_of r0\<rparr>"
    by (subst (asm) loop_logs_shift) auto
  then have "logs_of r = logs_of rb
             @ (if property eps (segmentKey d) \<noteq> None
                then [overlappingSegment segs (hd fs)] else [])
             @ logs_of c @ logs_of r0"
    by simp
  with rb tb c t show ?thesis by blast
qed

section \<open>Root level and module resolver\<close>

text \<open>
  C8. With \<open>isRoot = true\<close> the module of the level is built in memory: no collaborator
  is asked (the result is the same whatever the file system holds), the name is \<^verbatim>\<open>"."\<close>,
  the interface is the fixed root interface, and the context and its file path are the
  ones passed in. Only a level that is not the root goes to the module resolver. The
  root level of the compiler then walks the route files with this module.
\<close>

theorem root_module_synthesized:
  "getModule w entry context contextFilepath True =
     ([], Some \<lparr>mf_entry = entry, mf_filepath = entry, mf_context = context,
                 mf_contextFilepath = contextFilepath,
                 mf_instance = \<lparr>mc_name = ''.'', mc_interface = CreateModuleInterface\<rparr>\<rparr>)
   \<and> getModule w entry context contextFilepath True = getModule w' entry context contextFilepath True
   \<and> getModule w entry context contextFilepath False = getModuleConfig w entry context contextFilepath
   \<and> getComponents (Suc n) w entry context contextFilepath segments True =
       (case getRouteFiles w entry of
          (logsFiles, None) \<Rightarrow> Some \<lparr>logs_of = logsFiles, endpoints_of = None\<rparr>
        | (logsFiles, Some filesTree) \<Rightarrow>
            (case getEndpoints n w
                    \<lparr>mf_entry = entry, mf_filepath = entry, mf_context = context,
                     mf_contextFilepath = contextFilepath,
                     mf_instance = \<lparr>mc_name = ''.'', mc_interface = CreateModuleInterface\<rparr>\<rparr>
                    filesTree segments of
               None \<Rightarrow> None
             | Some r \<Rightarrow> Some (r\<lparr>logs_of := logsFiles @ logs_of r\<rparr>)))"
  by (simp add: getModule_def getComponents.simps split: prod.splits option.splits)

text \<open>
  C9. The context-schema flag of a resolved module is true exactly when the module file
  exports the context-schema name and has the extension \<^verbatim>\<open>TS\<close>; for a file of any other
  extension it is false, whatever the file exports.
\<close>

theorem context_schema_flag:
  "hasContextSchema w filepath =
     (CONTEXT_SCHEMA_TYPE_NAME w \<in> set (Tooling_getExportedVariableNames w filepath)
      \<and> Files_getExtension w filepath = ''TS'')
   \<and> (Files_getExtension w filepath \<noteq> ''TS'' \<longrightarrow> \<not> hasContextSchema w filepath)
   \<and> (getModuleStructure w entry = (errors, Some m) \<longrightarrow>
        ms_hasContextSchema m =
          (CONTEXT_SCHEMA_TYPE_NAME w \<in> set (Tooling_getExportedVariableNames w (ms_filepath m))
           \<and> Files_getExtension w (ms_filepath m) = ''TS''))"
  by (auto simp: hasContextSchema_def getModuleStructure_def split: prod.splits option.splits)

theorem context_schema_flag_witness:
  "Files_getExtension demo ''/app/m2/sherpa.module.js'' \<noteq> ''TS''
   \<and> CONTEXT_SCHEMA_TYPE_NAME demo \<in> set (Tooling_getExportedVariableNames demo ''/app/m2/sherpa.module.js'')
   \<and> \<not> hasContextSchema demo ''/app/m2/sherpa.module.js''
   \<and> (\<exists>m. getModuleStructure demo ''/app/m1'' = ([], Some m) \<and> ms_hasContextSchema m)"
proof -
  have ext: "Files_getExtension demo ''/app/m2/sherpa.module.js'' \<noteq> ''TS''"
    by (simp add: demo_def demoExtension_def endsWith_def)
  have exported: "CONTEXT_SCHEMA_TYPE_NAME demo
      \<in> set (Tooling_getExportedVariableNames demo ''/app/m2/sherpa.module.js'')"
    by (simp add: demo_def)
  obtain m where m: "getModuleStructure demo ''/app/m1'' = ([], Some m)"
      "ms_filepath m = ''/app/m1/sherpa.module.ts''"
    by (simp add: getModuleStructure_def getFilepath_def getInstance_def demo_def
          demoConfigFile_def demoDefaultExport_def truthy_def)
  have ts: "Files_getExtension demo ''/app/m1/sherpa.module.ts'' = ''TS''"
    by (simp add: demo_def demoExtension_def endsWith_def)
  from context_schema_flag [of demo "''/app/m2/sherpa.module.js''" "''/app/m1''" "[]" m] ext exported m ts
  show ?thesis by (auto simp: demo_def)
qed

text \<open>
  C4. When the server configuration is not resolved, \<open>getStructure\<close> returns the
  diagnostics of that lookup and neither endpoints nor server, without compiling
  anything (whatever the bound); when the configuration file is missing, the diagnostics
  are exactly one, of level ERROR.
\<close>

theorem server_config_missing_aborts:
  "(getServerConfig w entry = (logsServer, None) \<longrightarrow>
      getStructure n w entry = Some \<lparr>st_logs = logsServer, st_endpoints = None, st_server = None\<rparr>)
   \<and> (Files_getFilepathVariableExtension w entry (FILENAME_CONFIG_SERVER w)
         (SUPPORTED_FILE_EXTENSIONS w) = None \<longrightarrow>
      getStructure n w entry =
        Some \<lparr>st_logs = [serverConfigMissing entry], st_endpoints = None, st_server = None\<rparr>
      \<and> level (serverConfigMissing entry) = ERROR)"
  by (simp add: getStructure_def getServerConfig_def serverConfigMissing_def)

theorem server_config_missing_aborts_witness:
  "Files_getFilepathVariableExtension demo ''/nowhere'' (FILENAME_CONFIG_SERVER demo)
         (SUPPORTED_FILE_EXTENSIONS demo) = None
   \<and> getServerConfig demo ''/nowhere'' = ([serverConfigMissing ''/nowhere''], None)
   \<and> getStructure 0 demo ''/nowhere'' =
        Some \<lparr>st_logs = [serverConfigMissing ''/nowhere''], st_endpoints = None, st_server = None\<rparr>"
proof -
  have missing: "Files_getFilepathVariableExtension demo ''/nowhere'' (FILENAME_CONFIG_SERVER demo)
         (SUPPORTED_FILE_EXTENSIONS demo) = None"
    by (simp add: demo_def demoConfigFile_def)
  then have "getServerConfig demo ''/nowhere'' = ([serverConfigMissing ''/nowhere''], None)"
    by (simp add: getServerConfig_def)
  with missing server_config_missing_aborts [of demo "''/nowhere''" "[serverConfigMissing ''/nowhere'']" 0]
  show ?thesis by simp
qed

section \<open>Running the compiler on the project\<close>

lemmas demo_defs = demo_def demoConfigFile_def demoDefaultExport_def demoLoader_def
  demoRouteFiles_def demoDeclaration_def demoResolveExtension_def demoResolve_def
  demoDirectory_def demoName_def demoModule_def demoFiles_def demoExtension_def

lemmas compiler_defs = getEndpoints.simps getEndpoints_loop.simps getEndpointFile.simps
  getEndpointFileByModule.simps getComponents.simps getModule_def getModuleConfig_def
  getModuleStructure_def getFilepath_def getInstance_def getViewFilepath_def
  getFunctionsFilepath_def truthy_def hasError_def property_def spread_def segmentKey_def

section \<open>Endpoint classifier\<close>

lemma view_aborts:
  "getEndpointFileByModule n w functionsFilepath (Some view) segments =
     Some \<lparr>logs_of = [viewsNotSupported view], endpoints_of = None\<rparr>"
  by (simp add: getEndpointFileByModule.simps)

text \<open>
  C1. A route file whose functions file exports a loader and that has a view file beside
  it: the classifier logs the one warning and returns at once, without endpoints. The
  module \<^verbatim>\<open>/app/m1\<close> gives the level the key \<^verbatim>\<open>/a\<close> when the delegating route file has no
  view (\<^verbatim>\<open>/app/index\<close>) and nothing when it has one (\<^verbatim>\<open>/app/view/index\<close>): the delegated
  branch is not compiled.
\<close>

theorem view_beside_delegated_module:
  "getEndpoints (Suc 0) demo demoRoot (Dir [''/app/view/index''] []) [] =
     Some \<lparr>logs_of = [viewsNotSupported ''/app/view/index.html''], endpoints_of = Some []\<rparr>
   \<and> getEndpoints (Suc 0) demo demoRoot (Dir [''/app/index''] []) [] =
     Some \<lparr>logs_of = [],
           endpoints_of = Some [(''/a'', Tree [(''.'',
             Endpoint \<lparr>ep_filepath = ''/app/m1/a/index.ts'', ep_viewFilepath = None,
                       ep_methods = [''GET''], ep_module = demoM1 ''/app/index.ts'',
                       ep_segments = [\<lparr>name = ''a'', isDynamic = False\<rparr>]\<rparr>)])]\<rparr>"
  by (simp add: compiler_defs demo_defs demoM1_def getSegment_def startsWith_def endsWith_def
        hasContextSchema_def)

section \<open>Segments and tree keys\<close>

lemma level_child:
  assumes dist: "distinct (map fst ds)"
    and mem: "(d, sub) \<in> set ds"
    and run: "getEndpoints k w m (Dir fs ds) segs = Some r"
  shows "\<exists>c ct t pre post.
           getEndpoints k w m sub (segs @ [getSegment d]) = Some c \<and>
           endpoints_of c = Some ct \<and>
           endpoints_of r = Some t \<and>
           property t (segmentKey d) = Some (Tree ct) \<and>
           logs_of r = pre @ logs_of c @ post"
proof -
  from mem obtain before after where ds: "ds = before @ (d, sub) # after"
    by (auto dest: split_list)
  from run obtain eps lgs where
    "getEndpoints_loop k w m (Dir fs (before @ (d, sub) # after)) segs eps lgs = Some r"
    unfolding ds by (cases fs) (auto simp: getEndpoints_Dir_Nil getEndpoints_Dir_Cons split: option.splits)
  from loop_child [OF dist [unfolded ds] this] show ?thesis
    by (metis append.assoc)
qed

lemma bracketed:
  assumes "startsWith d ''[''" "endsWith d '']''"
  shows "\<exists>x. d = ''['' @ x @ '']''"
proof -
  from assms(1) obtain rest where d: "d = CHR ''['' # rest"
    by (cases d) (auto simp: startsWith_def)
  from assms(2) have "rest \<noteq> []" "last rest = CHR '']''"
    unfolding d endsWith_def
    by (cases rest rule: rev_cases; simp)+
  then have "rest = butlast rest @ '']''"
    by (metis append_butlast_last_id)
  with d show ?thesis by auto
qed

lemma getSegment_dynamic: "getSegment (''['' @ x @ '']'') = \<lparr>name = x, isDynamic = True\<rparr>"
  by (simp add: getSegment_def startsWith_def endsWith_def slice_def)

lemma getSegment_static:
  "\<forall>x. d \<noteq> ''['' @ x @ '']'' \<Longrightarrow> getSegment d = \<lparr>name = d, isDynamic = False\<rparr>"
proof -
  assume "\<forall>x. d \<noteq> ''['' @ x @ '']''"
  with bracketed [of d] have "\<not> (startsWith d ''['' \<and> endsWith d '']'')"
    by blast
  then show ?thesis
    by (auto simp: getSegment_def Let_def)
qed

text \<open>
  C7 (as amended). The segment parser has a value for every directory name: a name
  \<^verbatim>\<open>[x]\<close> gives the segment \<open>x\<close>, dynamic; any other name gives itself, static. The tree
  key of a child directory is \<^verbatim>\<open>"/"\<close> followed by the directory name as it is, brackets
  included: the subtree of the child, compiled under its segment, is stored at that key,
  and two directory names never share a key.
\<close>

theorem segment_parser:
  "getSegment (''['' @ x @ '']'') = \<lparr>name = x, isDynamic = True\<rparr>
   \<and> ((\<forall>x. d \<noteq> ''['' @ x @ '']'') \<longrightarrow> getSegment d = \<lparr>name = d, isDynamic = False\<rparr>)
   \<and> (distinct (map fst ds) \<and> (d', sub) \<in> set ds \<and> getEndpoints n w m (Dir fs ds) segs = Some r \<longrightarrow>
        (\<exists>c ct t. getEndpoints n w m sub (segs @ [getSegment d']) = Some c \<and>
                  endpoints_of c = Some ct \<and> endpoints_of r = Some t \<and>
                  property t (''/'' @ d') = Some (Tree ct)))
   \<and> (''/'' @ a = ''/'' @ b \<longrightarrow> a = b)"
proof -
  have "\<exists>c ct t. getEndpoints n w m sub (segs @ [getSegment d']) = Some c \<and>
                  endpoints_of c = Some ct \<and> endpoints_of r = Some t \<and>
                  property t (''/'' @ d') = Some (Tree ct)"
    if "distinct (map fst ds)" "(d', sub) \<in> set ds" "getEndpoints n w m (Dir fs ds) segs = Some r"
    using level_child [OF that] unfolding segmentKey_def by blast
  then show ?thesis
    using getSegment_dynamic getSegment_static by auto
qed

text \<open>
  The key of the directory \<^verbatim>\<open>[id]\<close> is \<^verbatim>\<open>/[id]\<close>, not \<^verbatim>\<open>"/"\<close> followed by the name of its
  segment.
\<close>

theorem dynamic_segment_key_counterexample:
  "getEndpoints 0 demo demoRoot (Dir [] [(''[id]'', Dir [] [])]) [] =
     Some \<lparr>logs_of = [], endpoints_of = Some [(''/[id]'', Tree [])]\<rparr>
   \<and> getSegment ''[id]'' = \<lparr>name = ''id'', isDynamic = True\<rparr>
   \<and> ''/[id]'' \<noteq> ''/'' @ name (getSegment ''[id]'')"
  by (simp add: compiler_defs getSegment_def startsWith_def endsWith_def slice_def)

theorem segment_parser_witness:
  "(\<forall>x. ''id'' \<noteq> ''['' @ x @ '']'')
   \<and> getSegment ''id'' = \<lparr>name = ''id'', isDynamic = False\<rparr>
   \<and> getSegment ''[id]'' = \<lparr>name = ''id'', isDynamic = True\<rparr>
   \<and> distinct (map fst [(''[id]'', Dir [''/app/[id]/index''] [])])
   \<and> getEndpoints 0 demo demoRoot (Dir [] [(''[id]'', Dir [''/app/[id]/index''] [])]) [] =
       Some \<lparr>logs_of = [],
             endpoints_of = Some [(''/[id]'', Tree [(''.'',
               Endpoint \<lparr>ep_filepath = ''/app/[id]/index.ts'', ep_viewFilepath = None,
                         ep_methods = [''GET''], ep_module = demoRoot,
                         ep_segments = [\<lparr>name = ''id'', isDynamic = True\<rparr>]\<rparr>)])]\<rparr>
   \<and> (\<exists>c ct. getEndpoints 0 demo demoRoot (Dir [''/app/[id]/index''] []) [getSegment ''[id]'']
                = Some c \<and> endpoints_of c = Some ct \<and>
              property [(''/[id]'', Tree [(''.'',
                 Endpoint \<lparr>ep_filepath = ''/app/[id]/index.ts'', ep_viewFilepath = None,
                         ep_methods = [''GET''], ep_module = demoRoot,
                         ep_segments = [\<lparr>name = ''id'', isDynamic = True\<rparr>]\<rparr>)])] ''/[id]''
                = Some (Tree ct))"
proof -
  have static: "\<forall>x. ''id'' \<noteq> ''['' @ x @ '']''" by simp
  have run: "getEndpoints 0 demo demoRoot (Dir [] [(''[id]'', Dir [''/app/[id]/index''] [])]) [] =
       Some \<lparr>logs_of = [],
             endpoints_of = Some [(''/[id]'', Tree [(''.'',
               Endpoint \<lparr>ep_filepath = ''/app/[id]/index.ts'', ep_viewFilepath = None,
                         ep_methods = [''GET''], ep_module = demoRoot,
                         ep_segments = [\<lparr>name = ''id'', isDynamic = True\<rparr>]\<rparr>)])]\<rparr>"
    by (simp add: compiler_defs demo_defs getSegment_def startsWith_def endsWith_def slice_def)
  have dist: "distinct (map fst [(''[id]'', Dir [''/app/[id]/index''] [])])" by simp
  from segment_parser [of "''id''" "''id''" "[(''[id]'', Dir [''/app/[id]/index''] [])]"
      "''[id]''" "Dir [''/app/[id]/index''] []" 0 demo demoRoot "[]" "[]"
      "\<lparr>logs_of = [],
             endpoints_of = Some [(''/[id]'', Tree [(''.'',
               Endpoint \<lparr>ep_filepath = ''/app/[id]/index.ts'', ep_viewFilepath = None,
                         ep_methods = [''GET''], ep_module = demoRoot,
                         ep_segments = [\<lparr>name = ''id'', isDynamic = True\<rparr>]\<rparr>)])]\<rparr>"
      "''a''" "''a''"]
    static run dist
  show ?thesis by auto
qed

section \<open>Flattening\<close>

lemma wellFormed_no_filepath:
  "wellFormed (Tree t) \<Longrightarrow> property t ''filepath'' = None"
proof -
  assume wf: "wellFormed (Tree t)"
  have "''filepath'' \<notin> fst ` set t"
  proof
    assume "''filepath'' \<in> fst ` set t"
    then obtain kv where "kv \<in> set t" "fst kv = ''filepath''" by auto
    with wf show False by (auto simp: list_all_iff)
  qed
  then show ?thesis
    by (simp add: property_def map_of_eq_None_iff)
qed

lemma those_map_Some:
  "\<forall>x \<in> set xs. f x = Some (g x) \<Longrightarrow> those (map f xs) = Some (map g xs)"
  by (induction xs) simp_all

lemma flattenEndpoints_wellFormed:
  "wellFormed t \<Longrightarrow> flattenEndpoints (Some t) = Some (flatten_spec t)"
proof (induction t rule: flatten_spec.induct)
  case (1 e)
  then show ?case by simp
next
  case (2 t)
  have nofp: "property t ''filepath'' = None"
    using "2.prems" by (rule wellFormed_no_filepath)
  have sub: "\<forall>kv \<in> set (filter (\<lambda>kv. fst kv \<noteq> ''.'') t).
               flattenEndpoints (Some (snd kv)) = Some (flatten_spec (snd kv))"
    using "2.IH" "2.prems" by (auto simp: list_all_iff)
  have dot: "property t ''.'' = map_of t ''.''"
    by (simp add: property_def)
  show ?case
    by (simp add: nofp those_map_Some [OF sub] dot)
qed

text \<open>
  C6. The flattener is a function of its argument alone. It returns the empty list for
  \<^verbatim>\<open>undefined\<close> and for the empty tree, the endpoint itself for a terminal endpoint, and on
  every tree of the data model it returns a list: the one of the specification, the
  \<^verbatim>\<open>"."\<close> entry first (if present) and then the flattened contents of the other keys in
  key order.
\<close>

theorem flattenEndpoints_total:
  "flattenEndpoints None = Some []
   \<and> flattenEndpoints (Some (Tree [])) = Some []
   \<and> (ep_filepath e \<noteq> [] \<longrightarrow> flattenEndpoints (Some (Endpoint e)) = Some [Endpoint e])
   \<and> (wellFormed t \<longrightarrow> flattenEndpoints (Some t) = Some (flatten_spec t))
   \<and> (wellFormed (Tree kvs) \<longrightarrow>
        flattenEndpoints (Some (Tree kvs)) =
          Some ((case property kvs ''.'' of Some dot \<Rightarrow> [dot] | None \<Rightarrow> [])
                @ concat (map (\<lambda>kv. flatten_spec (snd kv)) (filter (\<lambda>kv. fst kv \<noteq> ''.'') kvs))))"
  using flattenEndpoints_wellFormed [of t] flattenEndpoints_wellFormed [of "Tree kvs"]
  by (simp add: property_def)

theorem flattenEndpoints_total_witness:
  "ep_filepath \<lparr>ep_filepath = ''/app/a/index.ts'', ep_viewFilepath = None, ep_methods = [''GET''],
               ep_module = demoRoot, ep_segments = []\<rparr> \<noteq> []
   \<and> flattenEndpoints (Some (demoEndpoint ''/app/a/index.ts'' [])) =
       Some [demoEndpoint ''/app/a/index.ts'' []]
   \<and> wellFormed (Tree [(''/a'', Tree [(''.'', demoEndpoint ''/app/a/index.ts'' [])]),
                        (''.'', demoEndpoint ''/app/index.ts'' []),
                        (''/b'', Tree [(''/c'', Tree [(''.'', demoEndpoint ''/app/b/c/index.ts'' [])]),
                                      (''.'', demoEndpoint ''/app/b/index.ts'' [])])])
   \<and> flattenEndpoints
         (Some (Tree [(''/a'', Tree [(''.'', demoEndpoint ''/app/a/index.ts'' [])]),
                      (''.'', demoEndpoint ''/app/index.ts'' []),
                      (''/b'', Tree [(''/c'', Tree [(''.'', demoEndpoint ''/app/b/c/index.ts'' [])]),
                                    (''.'', demoEndpoint ''/app/b/index.ts'' [])])])) =
       Some [demoEndpoint ''/app/index.ts'' [], demoEndpoint ''/app/a/index.ts'' [],
             demoEndpoint ''/app/b/index.ts'' [], demoEndpoint ''/app/b/c/index.ts'' []]"
proof -
  have wf: "wellFormed (Tree [(''/a'', Tree [(''.'', demoEndpoint ''/app/a/index.ts'' [])]),
                        (''.'', demoEndpoint ''/app/index.ts'' []),
                        (''/b'', Tree [(''/c'', Tree [(''.'', demoEndpoint ''/app/b/c/index.ts'' [])]),
                                      (''.'', demoEndpoint ''/app/b/index.ts'' [])])])"
    by (simp add: demoEndpoint_def)
  have path: "ep_filepath \<lparr>ep_filepath = ''/app/a/index.ts'', ep_viewFilepath = None,
      ep_methods = [''GET''], ep_module = demoRoot, ep_segments = []\<rparr> \<noteq> []"
    by simp
  from flattenEndpoints_total
    [of "\<lparr>ep_filepath = ''/app/a/index.ts'', ep_viewFilepath = None,
          ep_methods = [''GET''], ep_module = demoRoot, ep_segments = []\<rparr>"
        "Tree [(''/a'', Tree [(''.'', demoEndpoint ''/app/a/index.ts'' [])]),
               (''.'', demoEndpoint ''/app/index.ts'' []),
               (''/b'', Tree [(''/c'', Tree [(''.'', demoEndpoint ''/app/b/c/index.ts'' [])]),
                             (''.'', demoEndpoint ''/app/b/index.ts'' [])])]" "[]"]
    wf path
  show ?thesis by (simp add: demoEndpoint_def)
qed

section \<open>Delegated modules\<close>

lemma hasError_append: "hasError (a @ b) = (hasError a \<or> hasError b)"
  by (simp add: hasError_def list_ex_iff) blast

lemma route_without_endpoints:
  assumes route: "getEndpointFile k w m route segs = Some r0"
    and none: "endpoints_of r0 = None"
    and dist: "distinct (map fst ds)"
  shows "getEndpoints k w m (Dir (route # fs) ds) segs =
           map_option (\<lambda>r. r\<lparr>logs_of := logs_of r0 @ logs_of r\<rparr>)
             (getEndpoints k w m (Dir [] ds) segs)"
proof -
  have "getEndpoints k w m (Dir (route # fs) ds) segs =
          getEndpoints_loop k w m (Dir (route # fs) ds) segs [] (logs_of r0)"
    by (simp add: getEndpoints_Dir_Cons route none)
  also have "\<dots> = map_option (\<lambda>r. r\<lparr>logs_of := logs_of r0 @ logs_of r\<rparr>)
                     (getEndpoints_loop k w m (Dir (route # fs) ds) segs [] [])"
    by (rule loop_logs_shift)
  also have "getEndpoints_loop k w m (Dir (route # fs) ds) segs [] [] =
             getEndpoints_loop k w m (Dir [] ds) segs [] []"
    by (rule loop_files_irrelevant [OF dist]) (simp add: property_def)
  finally show ?thesis
    by (simp add: getEndpoints_Dir_Nil)
qed

lemma delegated_module_run:
  assumes "getFunctionsFilepath w route = Some functionsFilepath"
    and "functionsFilepath \<noteq> []"
    and "Tooling_hasExportedLoader w functionsFilepath"
    and "getViewFilepath w route = None"
    and "Tooling_getExportedLoader w functionsFilepath ''Module Loader'' ''.load''
           = (logsModule, Some loader)"
    and "Tooling_getDefaultExport w functionsFilepath = Inr (Some moduleLoader)"
    and "getComponents k w
           (Path_resolve w (loaderFilepath loader) (Path_getDirectory w functionsFilepath))
           (de_context moduleLoader) functionsFilepath segs False = Some nested"
  shows "getEndpointFile k w m route segs =
           (if hasError (logsModule @ logs_of nested
                          @ Tooling_typeValidation w functionsFilepath ''Module Loader'')
            then Some \<lparr>logs_of = logsModule @ logs_of nested
                          @ Tooling_typeValidation w functionsFilepath ''Module Loader'',
                        endpoints_of = None\<rparr>
            else Some (nested\<lparr>logs_of := logsModule @ logs_of nested
                          @ Tooling_typeValidation w functionsFilepath ''Module Loader''\<rparr>))"
  using assms
  by (simp add: getEndpointFile.simps getEndpointFileByModule.simps truthy_def Let_def)

text \<open>
  C2. A route file classified as a delegated module, with no view beside it, whose
  loader and default export are read: when the compilation of the nested directory
  returns and its diagnostics or those of the type validation hold one of level ERROR,
  the classifier returns all the diagnostics of the branch and no endpoints; the level
  of the route file then has exactly the tree and the diagnostics of the same level
  without the route file, with the diagnostics of the branch in front.
\<close>

theorem delegated_module_error_suppresses_endpoints:
  assumes "getFunctionsFilepath w route = Some functionsFilepath"
    and "functionsFilepath \<noteq> []"
    and "Tooling_hasExportedLoader w functionsFilepath"
    and "getViewFilepath w route = None"
    and "Tooling_getExportedLoader w functionsFilepath ''Module Loader'' ''.load''
           = (logsModule, Some loader)"
    and "Tooling_getDefaultExport w functionsFilepath = Inr (Some moduleLoader)"
    and "getComponents k w
           (Path_resolve w (loaderFilepath loader) (Path_getDirectory w functionsFilepath))
           (de_context moduleLoader) functionsFilepath segs False = Some nested"
    and "hasError (logs_of nested)
         \<or> hasError (Tooling_typeValidation w functionsFilepath ''Module Loader'')"
    and "distinct (map fst ds)"
  shows "getEndpointFile k w m route segs =
           Some \<lparr>logs_of = logsModule @ logs_of nested
                    @ Tooling_typeValidation w functionsFilepath ''Module Loader'',
                 endpoints_of = None\<rparr>
         \<and> getEndpoints k w m (Dir (route # fs) ds) segs =
             map_option
               (\<lambda>r. r\<lparr>logs_of := (logsModule @ logs_of nested
                        @ Tooling_typeValidation w functionsFilepath ''Module Loader'')
                        @ logs_of r\<rparr>)
               (getEndpoints k w m (Dir [] ds) segs)"
proof -
  have branch: "getEndpointFile k w m route segs =
      Some \<lparr>logs_of = logsModule @ logs_of nested
               @ Tooling_typeValidation w functionsFilepath ''Module Loader'',
            endpoints_of = None\<rparr>"
    using delegated_module_run [OF assms(1-7), of m] assms(8)
    by (auto simp: hasError_append)
  from route_without_endpoints [OF branch _ assms(9), of fs] branch show ?thesis
    by simp
qed

theorem delegated_module_error_suppresses_endpoints_witness:
  "getFunctionsFilepath demo ''/app/typed/index'' = Some ''/app/typed/index.ts''
   \<and> Tooling_hasExportedLoader demo ''/app/typed/index.ts''
   \<and> getViewFilepath demo ''/app/typed/index'' = None
   \<and> (\<exists>nested. getComponents (Suc 0) demo ''/app/m1'' (Context ''m1'') ''/app/typed/index.ts'' [] False
         = Some nested \<and> logs_of nested = [] \<and> endpoints_of nested \<noteq> None
       \<and> hasError (Tooling_typeValidation demo ''/app/typed/index.ts'' ''Module Loader'')
       \<and> getEndpointFile (Suc 0) demo demoRoot ''/app/typed/index'' [] =
           Some \<lparr>logs_of = [demoTypeError], endpoints_of = None\<rparr>)
   \<and> getEndpoints (Suc 0) demo demoRoot
        (Dir [''/app/typed/index''] [(''a'', Dir [''/app/a/index''] [])]) [] =
       Some \<lparr>logs_of = [demoTypeError],
             endpoints_of = Some [(''/a'', Tree [(''.'',
               demoEndpoint ''/app/a/index.ts'' [\<lparr>name = ''a'', isDynamic = False\<rparr>])])]\<rparr>"
proof -
  have f: "getFunctionsFilepath demo ''/app/typed/index'' = Some ''/app/typed/index.ts''"
    by (simp add: getFunctionsFilepath_def demo_defs)
  have l: "Tooling_hasExportedLoader demo ''/app/typed/index.ts''"
    by (simp add: demo_defs)
  have v: "getViewFilepath demo ''/app/typed/index'' = None"
    by (simp add: getViewFilepath_def demo_defs)
  have ld: "Tooling_getExportedLoader demo ''/app/typed/index.ts'' ''Module Loader'' ''.load''
      = ([], Some \<lparr>loaderFilepath = ''/app/m1''\<rparr>)"
    by (simp add: demo_defs)
  have ex: "Tooling_getDefaultExport demo ''/app/typed/index.ts'' = Inr (Some (demoModule ''m1''))"
    by (simp add: demo_defs)
  obtain nested where n: "getComponents (Suc 0) demo ''/app/m1'' (Context ''m1'') ''/app/typed/index.ts'' [] False
      = Some nested" "logs_of nested = []" "endpoints_of nested \<noteq> None"
    by (simp add: compiler_defs demo_defs getSegment_def startsWith_def endsWith_def
        hasContextSchema_def)
  have n': "getComponents (Suc 0) demo
      (Path_resolve demo (loaderFilepath \<lparr>loaderFilepath = ''/app/m1''\<rparr>)
         (Path_getDirectory demo ''/app/typed/index.ts''))
      (de_context (demoModule ''m1'')) ''/app/typed/index.ts'' [] False = Some nested"
    using n(1) by (simp add: demo_defs)
  have tv: "Tooling_typeValidation demo ''/app/typed/index.ts'' ''Module Loader'' = [demoTypeError]"
    by (simp add: demo_defs)
  have e: "hasError (logs_of nested)
      \<or> hasError (Tooling_typeValidation demo ''/app/typed/index.ts'' ''Module Loader'')"
    by (simp add: tv hasError_def demoTypeError_def)
  have sib: "getEndpoints (Suc 0) demo demoRoot (Dir [] [(''a'', Dir [''/app/a/index''] [])]) [] =
      Some \<lparr>logs_of = [],
            endpoints_of = Some [(''/a'', Tree [(''.'',
               demoEndpoint ''/app/a/index.ts'' [\<lparr>name = ''a'', isDynamic = False\<rparr>])])]\<rparr>"
    by (simp add: compiler_defs demo_defs getSegment_def startsWith_def endsWith_def
        demoEndpoint_def demoRoot_def)
  have d: "distinct (map fst [(''a'', Dir [''/app/a/index''] [])])" by simp
  from delegated_module_error_suppresses_endpoints
    [OF f _ l v ld ex n' e d, of demoRoot "[]"] n sib tv f l v e
  show ?thesis by (auto simp: hasError_def)
qed

lemma module_config_missing:
  assumes "\<not> truthy (Files_getFilepathVariableExtension w entry
                       (FILENAME_CONFIG_MODULE w) (SUPPORTED_FILE_EXTENSIONS w))"
  shows "getModuleStructure w entry = ([moduleConfigMissing w entry], None)"
    and "getModuleConfig w entry context contextFilepath
           = ([asError (moduleConfigMissing w entry)], None)"
    and "getComponents (Suc n) w entry context contextFilepath segs False
           = Some \<lparr>logs_of = [asError (moduleConfigMissing w entry)], endpoints_of = None\<rparr>"
proof -
  show resolved: "getModuleStructure w entry = ([moduleConfigMissing w entry], None)"
    using assms by (simp add: getModuleStructure_def getFilepath_def)
  then show configured: "getModuleConfig w entry context contextFilepath
           = ([asError (moduleConfigMissing w entry)], None)"
    by (simp add: getModuleConfig_def)
  then show "getComponents (Suc n) w entry context contextFilepath segs False
           = Some \<lparr>logs_of = [asError (moduleConfigMissing w entry)], endpoints_of = None\<rparr>"
    by (simp add: getComponents.simps getModule_def)
qed

text \<open>
  C5. A directory that is not the root and has no module configuration file: the
  resolver returns the one error \<open>moduleConfigMissing\<close> and no module, which the compiler
  sees as one diagnostic of level ERROR and no module file; \<open>getComponents\<close> returns that
  diagnostic and no endpoints. The route file that delegated to the directory then
  contributes nothing, and the level of the route file has exactly the tree and the
  diagnostics of the same level without the route file (its child directories are
  compiled as they would be without it), with the diagnostics of the branch in front.
\<close>

theorem module_config_missing_aborts_branch:
  assumes "\<not> truthy (Files_getFilepathVariableExtension w entry
                       (FILENAME_CONFIG_MODULE w) (SUPPORTED_FILE_EXTENSIONS w))"
  shows "getModuleStructure w entry = ([moduleConfigMissing w entry], None)
     \<and> re_text (moduleConfigMissing w entry) = ''Module config file could not be found.''
     \<and> getModuleConfig w entry context contextFilepath
          = ([asError (moduleConfigMissing w entry)], None)
     \<and> level (asError (moduleConfigMissing w entry)) = ERROR
     \<and> getComponents (Suc n) w entry context contextFilepath segs False
          = Some \<lparr>logs_of = [asError (moduleConfigMissing w entry)], endpoints_of = None\<rparr>
     \<and> (getFunctionsFilepath w route = Some functionsFilepath
          \<and> functionsFilepath \<noteq> []
          \<and> Tooling_hasExportedLoader w functionsFilepath
          \<and> getViewFilepath w route = None
          \<and> Tooling_getExportedLoader w functionsFilepath ''Module Loader'' ''.load''
               = (logsModule, Some loader)
          \<and> Tooling_getDefaultExport w functionsFilepath = Inr (Some moduleLoader)
          \<and> Path_resolve w (loaderFilepath loader) (Path_getDirectory w functionsFilepath) = entry
          \<and> distinct (map fst ds)
        \<longrightarrow> getEndpoints (Suc n) w m (Dir (route # fs) ds) segs =
              map_option
                (\<lambda>r. r\<lparr>logs_of := (logsModule @ [asError (moduleConfigMissing w entry)]
                         @ Tooling_typeValidation w functionsFilepath ''Module Loader'')
                         @ logs_of r\<rparr>)
                (getEndpoints (Suc n) w m (Dir [] ds) segs))"
proof -
  note missing = module_config_missing [OF assms]
  have "getEndpoints (Suc n) w m (Dir (route # fs) ds) segs =
              map_option
                (\<lambda>r. r\<lparr>logs_of := (logsModule @ [asError (moduleConfigMissing w entry)]
                         @ Tooling_typeValidation w functionsFilepath ''Module Loader'')
                         @ logs_of r\<rparr>)
                (getEndpoints (Suc n) w m (Dir [] ds) segs)"
    if f: "getFunctionsFilepath w route = Some functionsFilepath"
      and ne: "functionsFilepath \<noteq> []"
      and l: "Tooling_hasExportedLoader w functionsFilepath"
      and v: "getViewFilepath w route = None"
      and ld: "Tooling_getExportedLoader w functionsFilepath ''Module Loader'' ''.load''
               = (logsModule, Some loader)"
      and ex: "Tooling_getDefaultExport w functionsFilepath = Inr (Some moduleLoader)"
      and res: "Path_resolve w (loaderFilepath loader) (Path_getDirectory w functionsFilepath) = entry"
      and dist: "distinct (map fst ds)"
  proof -
    have nested: "getComponents (Suc n) w
           (Path_resolve w (loaderFilepath loader) (Path_getDirectory w functionsFilepath))
           (de_context moduleLoader) functionsFilepath segs False
        = Some \<lparr>logs_of = [asError (moduleConfigMissing w entry)], endpoints_of = None\<rparr>"
      unfolding res by (rule missing(3))
    have branch: "getEndpointFile (Suc n) w m route segs =
        Some \<lparr>logs_of = logsModule @ [asError (moduleConfigMissing w entry)]
                 @ Tooling_typeValidation w functionsFilepath ''Module Loader'',
              endpoints_of = None\<rparr>"
      using delegated_module_run [OF f ne l v ld ex nested, of m]
      by (simp split: if_splits)
    from route_without_endpoints [OF branch _ dist, of fs] show ?thesis
      by simp
  qed
  with missing show ?thesis
    by (simp add: moduleConfigMissing_def asError_def)
qed

theorem module_config_missing_aborts_branch_witness:
  "\<not> truthy (Files_getFilepathVariableExtension demo ''/app/broken/none''
               (FILENAME_CONFIG_MODULE demo) (SUPPORTED_FILE_EXTENSIONS demo))
   \<and> getComponents (Suc 0) demo ''/app/broken/none'' (Context ''none'') ''/app/broken/index.ts'' [] False
        = Some \<lparr>logs_of = [asError (moduleConfigMissing demo ''/app/broken/none'')],
                endpoints_of = None\<rparr>
   \<and> getFunctionsFilepath demo ''/app/broken/index'' = Some ''/app/broken/index.ts''
   \<and> Tooling_hasExportedLoader demo ''/app/broken/index.ts''
   \<and> getViewFilepath demo ''/app/broken/index'' = None
   \<and> Path_resolve demo ''none'' (Path_getDirectory demo ''/app/broken/index.ts'') = ''/app/broken/none''
   \<and> getEndpoints (Suc 0) demo demoRoot
        (Dir [''/app/broken/index''] [(''a'', Dir [''/app/a/index''] [])]) [] =
       Some \<lparr>logs_of = [asError (moduleConfigMissing demo ''/app/broken/none'')],
             endpoints_of = Some [(''/a'', Tree [(''.'',
               demoEndpoint ''/app/a/index.ts'' [\<lparr>name = ''a'', isDynamic = False\<rparr>])])]\<rparr>"
proof -
  have missing: "\<not> truthy (Files_getFilepathVariableExtension demo ''/app/broken/none''
               (FILENAME_CONFIG_MODULE demo) (SUPPORTED_FILE_EXTENSIONS demo))"
    by (simp add: truthy_def demo_defs)
  have f: "getFunctionsFilepath demo ''/app/broken/index'' = Some ''/app/broken/index.ts''"
    by (simp add: getFunctionsFilepath_def demo_defs)
  have l: "Tooling_hasExportedLoader demo ''/app/broken/index.ts''"
    by (simp add: demo_defs)
  have v: "getViewFilepath demo ''/app/broken/index'' = None"
    by (simp add: getViewFilepath_def demo_defs)
  have ld: "Tooling_getExportedLoader demo ''/app/broken/index.ts'' ''Module Loader'' ''.load''
      = ([], Some \<lparr>loaderFilepath = ''none''\<rparr>)"
    by (simp add: demo_defs)
  have ex: "Tooling_getDefaultExport demo ''/app/broken/index.ts'' = Inr (Some (demoModule ''none''))"
    by (simp add: demo_defs)
  have res: "Path_resolve demo (loaderFilepath \<lparr>loaderFilepath = ''none''\<rparr>)
      (Path_getDirectory demo ''/app/broken/index.ts'') = ''/app/broken/none''"
    by (simp add: demo_defs)
  have tv: "Tooling_typeValidation demo ''/app/broken/index.ts'' ''Module Loader'' = []"
    by (simp add: demo_defs)
  have sib: "getEndpoints (Suc 0) demo demoRoot (Dir [] [(''a'', Dir [''/app/a/index''] [])]) [] =
      Some \<lparr>logs_of = [],
            endpoints_of = Some [(''/a'', Tree [(''.'',
               demoEndpoint ''/app/a/index.ts'' [\<lparr>name = ''a'', isDynamic = False\<rparr>])])]\<rparr>"
    by (simp add: compiler_defs demo_defs getSegment_def startsWith_def endsWith_def
        demoEndpoint_def demoRoot_def)
  have d: "distinct (map fst [(''a'', Dir [''/app/a/index''] [])])" by simp
  from module_config_missing_aborts_branch
    [OF missing, of "Context ''none''" "''/app/broken/index.ts''" 0 "[]" "''/app/broken/index''"
       "''/app/broken/index.ts''" "[]" "\<lparr>loaderFilepath = ''none''\<rparr>" "demoModule ''none''"
       "[(''a'', Dir [''/app/a/index''] [])]" demoRoot "[]"]
    missing f l v ld ex res tv sib d
  show ?thesis by simp
qed

section \<open>Child directories\<close>

lemma property_undefined: "property obj k = None \<longleftrightarrow> k \<notin> set (keys obj)"
  by (simp add: property_def keys_def map_of_eq_None_iff)

lemma property_spread_Nil: "property (spread [] t) key = None \<longleftrightarrow> property t key = None"
  by (simp add: property_undefined keys_spread) (simp add: keys_def)

lemma loop_logs_spec:
  assumes "distinct (map fst ds)"
    and "\<forall>x \<in> set ds. (property eps (segmentKey (fst x)) = None)
                        = (property own (segmentKey (fst x)) = None)"
    and "getEndpoints_loop k w m (Dir (route # fs) ds) segs eps lgs = Some r"
  shows "\<exists>ls. childDiagnostics_spec k w m route segs own ds = Some ls \<and> logs_of r = lgs @ ls"
  using assms
proof (induction ds arbitrary: eps lgs)
  case Nil
  then show ?case by (auto simp: loop_Nil)
next
  case (Cons x ds)
  obtain d sub where x: "x = (d, sub)" by (cases x)
  from loop_Cons_Some [OF Cons.prems(3) [unfolded x]] obtain c e where
    c: "getEndpoints k w m sub (segs @ [getSegment d]) = Some c" "endpoints_of c = Some e"
    and run: "getEndpoints_loop k w m (Dir (route # fs) ds) segs (assign (segmentKey d) (Tree e) eps)
                (lgs @ (if property eps (segmentKey d) \<noteq> None
                        then [overlappingSegment segs (hd (route # fs))] else []) @ logs_of c) = Some r"
    by blast
  have here: "(property eps (segmentKey d) = None) = (property own (segmentKey d) = None)"
    using Cons.prems(2) by (simp add: x)
  have dist: "distinct (map fst ds)"
    using Cons.prems(1) by simp
  have rest: "\<forall>y \<in> set ds. (property (assign (segmentKey d) (Tree e) eps) (segmentKey (fst y)) = None)
                        = (property own (segmentKey (fst y)) = None)"
    using Cons.prems(1,2) by (auto simp: x property_assign segmentKey_inj)
  from Cons.IH [OF dist rest run] obtain ls where
    ls: "childDiagnostics_spec k w m route segs own ds = Some ls"
    and lg: "logs_of r = (lgs @ (if property eps (segmentKey d) \<noteq> None
                        then [overlappingSegment segs (hd (route # fs))] else []) @ logs_of c) @ ls"
    by blast
  show ?case
    unfolding x using c ls lg here by simp
qed

lemma childDiagnostics_spec_append:
  "childDiagnostics_spec k w m route segs own (before @ (d, sub) # after) = Some ls \<Longrightarrow>
   \<exists>lb c la. childDiagnostics_spec k w m route segs own before = Some lb \<and>
             getEndpoints k w m sub (segs @ [getSegment d]) = Some c \<and>
             childDiagnostics_spec k w m route segs own after = Some la \<and>
             ls = lb @ (if property own (segmentKey d) \<noteq> None
                        then [overlappingSegment segs route] else []) @ logs_of c @ la"
proof (induction before arbitrary: ls)
  case Nil
  then show ?case by (auto split: option.splits)
next
  case (Cons x before)
  obtain d' sub' where x: "x = (d', sub')" by (cases x)
  from Cons.prems obtain c' more where
    c': "getEndpoints k w m sub' (segs @ [getSegment d']) = Some c'"
    and more: "childDiagnostics_spec k w m route segs own (before @ (d, sub) # after) = Some more"
    and ls: "ls = (if property own (segmentKey d') \<noteq> None
                   then [overlappingSegment segs route] else []) @ logs_of c' @ more"
    unfolding x by (auto split: option.splits)
  from Cons.IH [OF more] obtain lb c la where
    "childDiagnostics_spec k w m route segs own before = Some lb"
    "getEndpoints k w m sub (segs @ [getSegment d]) = Some c"
    "childDiagnostics_spec k w m route segs own after = Some la"
    "more = lb @ (if property own (segmentKey d) \<noteq> None
                        then [overlappingSegment segs route] else []) @ logs_of c @ la"
    by blast
  with c' ls show ?case
    unfolding x by simp
qed

text \<open>
  C3. A level whose route file contributes a tree with the key of one of its child
  directories, every child directory's compilation returning: the level returns; its
  diagnostics are those of the route file, then those of the earlier children as the
  specification lists them, then exactly the one warning of the collision, then the
  child's diagnostics, then those of the later children as the specification lists
  them, and nothing else; and the value at the key in the tree of the level is the
  child's compiled subtree.
\<close>

theorem overlapping_segment_last_writer_wins:
  assumes dist: "distinct (map fst (before @ (d, sub) # after))"
    and route: "getEndpointFile k w m route segs = Some own"
    and own: "endpoints_of own = Some ownTree"
    and collision: "property ownTree (segmentKey d) \<noteq> None"
    and children: "\<forall>x \<in> set (before @ (d, sub) # after).
                     getEndpoints k w m (snd x) (segs @ [getSegment (fst x)]) \<noteq> None"
  shows "\<exists>r t c ct lb la.
           getEndpoints k w m (Dir (route # fs) (before @ (d, sub) # after)) segs = Some r \<and>
           endpoints_of r = Some t \<and>
           getEndpoints k w m sub (segs @ [getSegment d]) = Some c \<and>
           endpoints_of c = Some ct \<and>
           childDiagnostics_spec k w m route segs ownTree before = Some lb \<and>
           childDiagnostics_spec k w m route segs ownTree after = Some la \<and>
           level (overlappingSegment segs route) = WARN \<and>
           logs_of r = logs_of own @ lb @ [overlappingSegment segs route] @ logs_of c @ la \<and>
           property t (segmentKey d) = Some (Tree ct)"
proof -
  let ?ds = "before @ (d, sub) # after"
  have level: "getEndpoints k w m (Dir (route # fs) xs) segs =
      getEndpoints_loop k w m (Dir (route # fs) xs) segs (spread [] ownTree) (logs_of own)" for xs
    by (simp add: getEndpoints_Dir_Cons route own)
  have "getEndpoints_loop k w m (Dir (route # fs) ?ds) segs (spread [] ownTree) (logs_of own) \<noteq> None"
    using children by (intro loop_total) simp_all
  then obtain r where
    r: "getEndpoints_loop k w m (Dir (route # fs) ?ds) segs (spread [] ownTree) (logs_of own) = Some r"
    by blast
  from loop_child [OF dist r] obtain c ct t where
    c: "getEndpoints k w m sub (segs @ [getSegment d]) = Some c" "endpoints_of c = Some ct"
    and t: "endpoints_of r = Some t" "property t (segmentKey d) = Some (Tree ct)"
    by blast
  have same: "\<forall>x \<in> set ?ds. (property (spread [] ownTree) (segmentKey (fst x)) = None)
                        = (property ownTree (segmentKey (fst x)) = None)"
    by (simp only: property_spread_Nil) simp
  from loop_logs_spec [OF dist same r] obtain ls where
    ls: "childDiagnostics_spec k w m route segs ownTree ?ds = Some ls"
    and lg: "logs_of r = logs_of own @ ls"
    by blast
  from childDiagnostics_spec_append [OF ls] c(1) obtain lb la where
    lb: "childDiagnostics_spec k w m route segs ownTree before = Some lb"
    and la: "childDiagnostics_spec k w m route segs ownTree after = Some la"
    and split: "ls = lb @ (if property ownTree (segmentKey d) \<noteq> None
                        then [overlappingSegment segs route] else []) @ logs_of c @ la"
    by auto
  have "logs_of r = logs_of own @ lb @ [overlappingSegment segs route] @ logs_of c @ la"
    unfolding lg split if_P [OF collision] by simp
  moreover have "level (overlappingSegment segs route) = WARN"
    by (simp add: overlappingSegment_def)
  ultimately show ?thesis
    unfolding level using r c t lb la by blast
qed


theorem overlapping_segment_last_writer_wins_witness:
  "distinct (map fst ([] @ (''a'', Dir [''/app/a/index''] []) # [(''b'', Dir [] [])]))
   \<and> getEndpointFile (Suc 0) demo demoRoot ''/app/index'' [] =
       Some \<lparr>logs_of = [],
             endpoints_of = Some [(''/a'', Tree [(''.'',
               Endpoint \<lparr>ep_filepath = ''/app/m1/a/index.ts'', ep_viewFilepath = None,
                         ep_methods = [''GET''], ep_module = demoM1 ''/app/index.ts'',
                         ep_segments = [\<lparr>name = ''a'', isDynamic = False\<rparr>]\<rparr>)])]\<rparr>
   \<and> getEndpoints (Suc 0) demo demoRoot (Dir [''/app/a/index''] []) ([] @ [getSegment ''a'']) =
       Some \<lparr>logs_of = [],
             endpoints_of = Some [(''.'',
               demoEndpoint ''/app/a/index.ts'' [\<lparr>name = ''a'', isDynamic = False\<rparr>])]\<rparr>
   \<and> getEndpoints (Suc 0) demo demoRoot (Dir [] []) ([] @ [getSegment ''b'']) =
       Some \<lparr>logs_of = [], endpoints_of = Some []\<rparr>
   \<and> childDiagnostics_spec (Suc 0) demo demoRoot ''/app/index'' []
         [(''/a'', Tree [(''.'',
               Endpoint \<lparr>ep_filepath = ''/app/m1/a/index.ts'', ep_viewFilepath = None,
                         ep_methods = [''GET''], ep_module = demoM1 ''/app/index.ts'',
                         ep_segments = [\<lparr>name = ''a'', isDynamic = False\<rparr>]\<rparr>)])]
         [(''b'', Dir [] [])] = Some []
   \<and> (\<exists>r t.
         getEndpoints (Suc 0) demo demoRoot
           (Dir [''/app/index''] ([] @ (''a'', Dir [''/app/a/index''] []) # [(''b'', Dir [] [])])) []
           = Some r
         \<and> endpoints_of r = Some t
         \<and> logs_of r = [overlappingSegment [] ''/app/index'']
         \<and> property t (segmentKey ''a'') =
             Some (Tree [(''.'', demoEndpoint ''/app/a/index.ts'' [\<lparr>name = ''a'', isDynamic = False\<rparr>])]))
   \<and> getEndpoints (Suc 0) demo demoRoot
         (Dir [''/app/index''] [(''a'', Dir [''/app/a/index''] []), (''b'', Dir [] [])]) [] =
       Some \<lparr>logs_of = [overlappingSegment [] ''/app/index''],
             endpoints_of = Some [(''/a'', Tree [(''.'',
               demoEndpoint ''/app/a/index.ts'' [\<lparr>name = ''a'', isDynamic = False\<rparr>])]),
               (''/b'', Tree [])]\<rparr>"
proof -
  have dist: "distinct (map fst ([] @ (''a'', Dir [''/app/a/index''] []) # [(''b'', Dir [] [])]))"
    by simp
  have route: "getEndpointFile (Suc 0) demo demoRoot ''/app/index'' [] =
       Some \<lparr>logs_of = [],
             endpoints_of = Some [(''/a'', Tree [(''.'',
               Endpoint \<lparr>ep_filepath = ''/app/m1/a/index.ts'', ep_viewFilepath = None,
                         ep_methods = [''GET''], ep_module = demoM1 ''/app/index.ts'',
                         ep_segments = [\<lparr>name = ''a'', isDynamic = False\<rparr>]\<rparr>)])]\<rparr>"
    by (simp add: compiler_defs demo_defs demoM1_def getSegment_def startsWith_def endsWith_def
        hasContextSchema_def)
  have child: "getEndpoints (Suc 0) demo demoRoot (Dir [''/app/a/index''] []) ([] @ [getSegment ''a'']) =
       Some \<lparr>logs_of = [],
             endpoints_of = Some [(''.'',
               demoEndpoint ''/app/a/index.ts'' [\<lparr>name = ''a'', isDynamic = False\<rparr>])]\<rparr>"
    by (simp add: compiler_defs demo_defs getSegment_def startsWith_def endsWith_def
        demoEndpoint_def demoRoot_def)
  have other: "getEndpoints (Suc 0) demo demoRoot (Dir [] []) ([] @ [getSegment ''b'']) =
       Some \<lparr>logs_of = [], endpoints_of = Some []\<rparr>"
    by (simp add: getEndpoints_Dir_Nil loop_Nil)
  have collision: "property [(''/a'', Tree [(''.'',
               Endpoint \<lparr>ep_filepath = ''/app/m1/a/index.ts'', ep_viewFilepath = None,
                         ep_methods = [''GET''], ep_module = demoM1 ''/app/index.ts'',
                         ep_segments = [\<lparr>name = ''a'', isDynamic = False\<rparr>]\<rparr>)])]
        (segmentKey ''a'') \<noteq> None"
    by (simp add: property_def segmentKey_def)
  have children: "\<forall>x \<in> set ([] @ (''a'', Dir [''/app/a/index''] []) # [(''b'', Dir [] [])]).
      getEndpoints (Suc 0) demo demoRoot (snd x) ([] @ [getSegment (fst x)]) \<noteq> None"
    using child other by simp
  have later: "childDiagnostics_spec (Suc 0) demo demoRoot ''/app/index'' []
         [(''/a'', Tree [(''.'',
               Endpoint \<lparr>ep_filepath = ''/app/m1/a/index.ts'', ep_viewFilepath = None,
                         ep_methods = [''GET''], ep_module = demoM1 ''/app/index.ts'',
                         ep_segments = [\<lparr>name = ''a'', isDynamic = False\<rparr>]\<rparr>)])]
         [(''b'', Dir [] [])] = Some []"
    using other by (simp add: property_def segmentKey_def)
  from overlapping_segment_last_writer_wins [OF dist route _ collision children, of "[]"]
    child later
  have found: "\<exists>r t.
         getEndpoints (Suc 0) demo demoRoot
           (Dir [''/app/index''] ([] @ (''a'', Dir [''/app/a/index''] []) # [(''b'', Dir [] [])])) []
           = Some r
         \<and> endpoints_of r = Some t
         \<and> logs_of r = [overlappingSegment [] ''/app/index'']
         \<and> property t (segmentKey ''a'') =
             Some (Tree [(''.'', demoEndpoint ''/app/a/index.ts'' [\<lparr>name = ''a'', isDynamic = False\<rparr>])])"
    by auto
  have run: "getEndpoints (Suc 0) demo demoRoot
         (Dir [''/app/index''] [(''a'', Dir [''/app/a/index''] []), (''b'', Dir [] [])]) [] =
       Some \<lparr>logs_of = [overlappingSegment [] ''/app/index''],
             endpoints_of = Some [(''/a'', Tree [(''.'',
               demoEndpoint ''/app/a/index.ts'' [\<lparr>name = ''a'', isDynamic = False\<rparr>])]),
               (''/b'', Tree [])]\<rparr>"
    using child other
    by (simp add: getEndpoints_Dir_Cons route loop_Cons loop_Nil spread_def property_def
        segmentKey_def)
  from dist route child other later found run show ?thesis
    by (intro conjI)
qed




text \<open>
  In this compiler the compilation of a child directory, when it returns, always returns
  a tree (\<open>getEndpoints_returns_tree\<close>), which may be empty: a child directory whose only
  route file delegates to a directory without module configuration compiles to an ERROR
  diagnostic and the empty tree, and the level stores the empty tree at the child's key.
\<close>

lemma failed_child_run:
  "getEndpoints (Suc 0) demo demoRoot (Dir [''/app/broken/index''] []) [getSegment ''a''] =
     Some \<lparr>logs_of = [asError (moduleConfigMissing demo ''/app/broken/none'')],
           endpoints_of = Some []\<rparr>
   \<and> getEndpoints (Suc 0) demo demoRoot
         (Dir [''/app/index''] [(''a'', Dir [''/app/broken/index''] [])]) [] =
     Some \<lparr>logs_of = [overlappingSegment [] ''/app/index'',
                      asError (moduleConfigMissing demo ''/app/broken/none'')],
           endpoints_of = Some [(''/a'', Tree [])]\<rparr>"
  by (simp add: compiler_defs demo_defs demoM1_def getSegment_def startsWith_def endsWith_def
        hasContextSchema_def overlappingSegment_def asError_def moduleConfigMissing_def)

section \<open>The bound on nested modules\<close>

text \<open>
  A larger bound does not change a result: a compilation that returns within \<open>n\<close> nested
  modules returns the same diagnostics and tree within any \<open>n'\<close> above \<open>n\<close>.
\<close>

lemma fuel_mono:
  "getComponents n w e c f s b = Some r \<Longrightarrow> n \<le> n' \<Longrightarrow> getComponents n' w e c f s b = Some r"
  "getEndpoints n w m t s = Some r \<Longrightarrow> n \<le> n' \<Longrightarrow> getEndpoints n' w m t s = Some r"
  "getEndpoints_loop n w m t s eps lgs = Some r \<Longrightarrow> n \<le> n' \<Longrightarrow>
     getEndpoints_loop n' w m t s eps lgs = Some r"
  "getEndpointFile n w m p s = Some r \<Longrightarrow> n \<le> n' \<Longrightarrow> getEndpointFile n' w m p s = Some r"
  "getEndpointFileByModule n w p v s = Some r \<Longrightarrow> n \<le> n' \<Longrightarrow>
     getEndpointFileByModule n' w p v s = Some r"
proof (induction n w e c f s b and n w m t s and n w m t s eps lgs and n w m p s and n w p v s
    arbitrary: r n' and r n' and r n' and r n' and r n'
    rule: getComponents_getEndpoints_getEndpoints_loop_getEndpointFile_getEndpointFileByModule.induct)
  case (1 w entry ctx contextFilepath segments isRoot)
  then show ?case by (simp add: getComponents.simps)
next
  case (2 n w entry ctx contextFilepath segments isRoot)
  from "2.prems"(2) obtain k where n': "n' = Suc k" "n \<le> k"
    by (cases n') auto
  have IH: "getEndpoints k w mo ft segments = Some r'"
    if "getModule w entry ctx contextFilepath isRoot = (lm, Some mo)"
      and "getRouteFiles w (mf_entry mo) = (lf, Some ft)"
      and "getEndpoints n w mo ft segments = Some r'" for lm mo lf ft r'
    using "2.IH" [OF that(1) [symmetric] refl that(2) [symmetric] refl that(3) n'(2)] .
  from "2.prems"(1) show ?case
    unfolding n' getComponents.simps
    by (auto split: prod.splits option.splits dest: IH)
next
  case (3 n w module dirTree segments)
  have IH1: "getEndpoints_loop n' w module dirTree segments [] [] = Some r'"
    if "files dirTree = []" "getEndpoints_loop n w module dirTree segments [] [] = Some r'" for r'
    using "3.IH"(1) [OF that "3.prems"(2)] .
  have IH2: "getEndpointFile n' w module file0 segments = Some r'"
    if "files dirTree = file0 # more" "getEndpointFile n w module file0 segments = Some r'"
    for file0 more r'
    using "3.IH"(2) [OF that "3.prems"(2)] .
  have IH3: "getEndpoints_loop n' w module dirTree segments
               (case endpoints_of r0 of None \<Rightarrow> [] | Some e \<Rightarrow> spread [] e) (logs_of r0) = Some r'"
    if "files dirTree = file0 # more" "getEndpointFile n w module file0 segments = Some r0"
      "getEndpoints_loop n w module dirTree segments
         (case endpoints_of r0 of None \<Rightarrow> [] | Some e \<Rightarrow> spread [] e) (logs_of r0) = Some r'"
    for file0 more r0 r'
    using "3.IH"(3) [OF that "3.prems"(2)] .
  show ?case
  proof (cases "files dirTree")
    case Nil
    with "3.prems"(1) IH1 show ?thesis
      by (simp add: getEndpoints.simps [of n] getEndpoints.simps [of n'])
  next
    case (Cons file0 more)
    from "3.prems"(1) Cons obtain r0 where
      r0: "getEndpointFile n w module file0 segments = Some r0"
      and run: "getEndpoints_loop n w module dirTree segments
         (case endpoints_of r0 of None \<Rightarrow> [] | Some e \<Rightarrow> spread [] e) (logs_of r0) = Some r"
      by (auto simp: getEndpoints.simps [of n] split: option.splits)
    from IH2 [OF Cons r0] IH3 [OF Cons r0 run] Cons show ?thesis
      by (simp add: getEndpoints.simps [of n'])
  qed
next
  case (4 n w module fs segments endpoints logs)
  then show ?case by (simp add: getEndpoints_loop.simps)
next
  case (5 n w module fs segmentName sub rest segments endpoints logs)
  show ?case
  proof (cases "property endpoints (segmentKey segmentName) \<noteq> None \<and> fs = []")
    case True
    with "5.prems"(1) show ?thesis by (simp add: loop_Cons)
  next
    case False
    from "5.prems"(1) False obtain c where
      c: "getEndpoints n w module sub (segments @ [getSegment segmentName]) = Some c"
      and rest: "getEndpoints_loop n w module (Dir fs rest) segments
                 (case endpoints_of c of
                    None \<Rightarrow> endpoints
                  | Some e \<Rightarrow> assign (segmentKey segmentName) (Tree e) endpoints)
                 (logs @ (if property endpoints (segmentKey segmentName) \<noteq> None
                         then [overlappingSegment segments (hd fs)] else []) @ logs_of c) = Some r"
      unfolding loop_Cons by (auto split: option.splits if_splits)
    obtain logs1 where logs1: "(if property endpoints (segmentKey segmentName) \<noteq> None
            then (case fs of
                    [] \<Rightarrow> None
                  | file0 # _ \<Rightarrow> Some (logs @ [overlappingSegment segments file0]))
            else Some logs) = Some logs1"
       "logs1 @ logs_of c = logs @ (if property endpoints (segmentKey segmentName) \<noteq> None
                         then [overlappingSegment segments (hd fs)] else []) @ logs_of c"
      using False by (cases fs) auto
    have c': "getEndpoints n' w module sub (segments @ [getSegment segmentName]) = Some c"
      using "5.IH"(1) [OF logs1(1) c "5.prems"(2)] .
    have "getEndpoints_loop n' w module (Dir fs rest) segments
                 (case endpoints_of c of
                    None \<Rightarrow> endpoints
                  | Some e \<Rightarrow> assign (segmentKey segmentName) (Tree e) endpoints)
                 (logs1 @ logs_of c) = Some r"
      using "5.IH"(2) [OF logs1(1) c _ "5.prems"(2)] rest logs1(2) by simp
    with c' False logs1(2) show ?thesis
      unfolding loop_Cons by simp
  qed
next
  case (6 n w module filepath segments)
  have IH: "getEndpointFileByModule n' w fns (getViewFilepath w filepath) segments = Some r'"
    if "getFunctionsFilepath w filepath = Some fns" "fns \<noteq> []"
      "Tooling_hasExportedLoader w fns"
      "getEndpointFileByModule n w fns (getViewFilepath w filepath) segments = Some r'"
    for fns r'
    using "6.IH" [OF refl refl that(1) _ that(4) "6.prems"(2)] that(2,3) by simp
  from "6.prems"(1) show ?case
    unfolding getEndpointFile.simps Let_def
    by (auto split: option.splits if_splits dest: IH)
next
  case (7 n w functionsFilepath viewFilepath segments)
  have IH: "getComponents n' w (Path_resolve w (loaderFilepath ld)
                (Path_getDirectory w functionsFilepath)) (de_context ml) functionsFilepath
                segments False = Some r'"
    if "viewFilepath = None"
      "Tooling_getExportedLoader w functionsFilepath ''Module Loader'' ''.load'' = (lm, Some ld)"
      "Tooling_getDefaultExport w functionsFilepath = Inr (Some ml)"
      "getComponents n w (Path_resolve w (loaderFilepath ld)
                (Path_getDirectory w functionsFilepath)) (de_context ml) functionsFilepath
                segments False = Some r'"
    for lm ld ml r'
    using "7.IH" [OF that(1) that(2) [symmetric] refl that(3) refl refl that(4) "7.prems"(2)] .
  from "7.prems"(1) show ?case
    unfolding getEndpointFileByModule.simps Let_def
    by (auto split: option.splits prod.splits sum.splits if_splits dest: IH)
qed

end
